theory Spec2Isabelle
  imports Complex_Main "HOL-Library.Word"
begin

section \<open>Python values and exceptions\<close>

text \<open>
  The exceptions that the modelled code can raise.  A function that may raise returns
  a sum \<open>exn + 'a\<close>, with \<open>Inl\<close> for the exception.
\<close>

datatype exn =
    UnboundLocalError
  | AttributeError
  | ValueError
  | TypeError
  | KeyError
  | IndexError
  | ZeroDivisionError
  | StructError
  | StatisticsError
  | ALSAAudioError
  | CancelledError

type_synonym byte = "8 word"
type_synonym bytes = "byte list"

section \<open>The format identifier grammar\<close>

text \<open>
  Both source files match the format identifier with
  \<^verbatim>\<open>re.match(r'.*(S|U)(\d+)_?(LE|BE)?$', s)\<close>.
  The regular expression is kept as a syntax tree and run by a backtracking matcher
  that lists, in the order in which Python's engine tries them, every way a
  subexpression can match at the current position: the head of the list is the match
  that \<^verbatim>\<open>re.match\<close> reports.  Repetition only occurs over single-character
  atoms in this pattern, so \<open>Star\<close> and \<open>Plus\<close> take an atom.
  Strings are byte strings: \<^verbatim>\<open>.\<close> is every character but the newline and
  \<^verbatim>\<open>\d\<close> is an ASCII digit.
\<close>

datatype atom = Dot | Digit | Lit char

datatype rx =
    Atom atom
  | Cat rx rx
  | Alt rx rx
  | Opt rx
  | Star atom
  | Plus atom
  | Grp nat rx
  | Eol

definition is_digit :: "char \<Rightarrow> bool" where
  "is_digit c = (c \<in> set ''0123456789'')"

fun atom_ok :: "atom \<Rightarrow> char \<Rightarrow> bool" where
  "atom_ok Dot c = (c \<noteq> CHR 0x0A)"
| "atom_ok Digit c = is_digit c"
| "atom_ok (Lit d) c = (c = d)"

text \<open>
  A matcher state is the rest of the subject and the groups captured so far (the most
  recent capture of a group first).
\<close>

type_synonym mstate = "string \<times> (nat \<times> string) list"

text \<open>Greedy repetition of an atom: the longest run first, then shorter ones, down to \<open>lo\<close>.\<close>

definition greedy :: "atom \<Rightarrow> nat \<Rightarrow> mstate \<Rightarrow> mstate list" where
  "greedy a lo st =
     (let s = fst st; n = length (takeWhile (atom_ok a) s)
      in map (\<lambda>k. (drop k s, snd st)) (rev [lo ..< Suc n]))"

primrec rx_match :: "rx \<Rightarrow> mstate \<Rightarrow> mstate list" where
  "rx_match (Atom a) st =
     (case fst st of [] \<Rightarrow> [] | c # cs \<Rightarrow> if atom_ok a c then [(cs, snd st)] else [])"
| "rx_match (Cat r1 r2) st = concat (map (rx_match r2) (rx_match r1 st))"
| "rx_match (Alt r1 r2) st = rx_match r1 st @ rx_match r2 st"
| "rx_match (Opt r) st = rx_match r st @ [st]"
| "rx_match (Star a) st = greedy a 0 st"
| "rx_match (Plus a) st = greedy a 1 st"
| "rx_match (Grp n r) st =
     map (\<lambda>st'. (fst st', (n, take (length (fst st) - length (fst st')) (fst st)) # snd st'))
       (rx_match r st)"
| "rx_match Eol st = (if fst st = [] \<or> fst st = [CHR 0x0A] then [st] else [])"

definition lit :: "string \<Rightarrow> rx" where
  "lit s = foldr (\<lambda>c r. Cat (Atom (Lit c)) r) (butlast s) (Atom (Lit (last s)))"

definition fmt_pattern :: rx where
  "fmt_pattern =
     Cat (Star Dot)
    (Cat (Grp 1 (Alt (Atom (Lit CHR ''S'')) (Atom (Lit CHR ''U''))))
    (Cat (Grp 2 (Plus Digit))
    (Cat (Opt (Atom (Lit CHR ''_'')))
    (Cat (Opt (Grp 3 (Alt (lit ''LE'') (lit ''BE''))))
         Eol))))"

text \<open>
  \<^verbatim>\<open>fmt_matcher(s)\<close> followed by \<^verbatim>\<open>res.groups()\<close>: \<open>None\<close> when there is
  no match, else the three groups, a group that took no part in the match being \<open>None\<close>.
\<close>

definition fmt_matcher :: "string \<Rightarrow> (string option \<times> string option \<times> string option) option" where
  "fmt_matcher s =
     (case rx_match fmt_pattern (s, []) of
        [] \<Rightarrow> None
      | st # _ \<Rightarrow> Some (map_of (snd st) 1, map_of (snd st) 2, map_of (snd st) 3))"

section \<open>Format descriptors\<close>

text \<open>
  \<^verbatim>\<open>int(bits)\<close> on the text of group 2.  The group only ever holds a non-empty run
  of digits; on anything else \<^verbatim>\<open>int\<close> of this model raises \<open>ValueError\<close>.
\<close>

definition digit_val :: "char \<Rightarrow> int" where
  "digit_val c = int (of_char c) - 48"

definition py_int :: "string \<Rightarrow> exn + int" where
  "py_int s =
     (if s \<noteq> [] \<and> list_all is_digit s
      then Inr (foldl (\<lambda>a c. 10 * a + digit_val c) 0 s)
      else Inl ValueError)"

text \<open>The class attribute \<^verbatim>\<open>is_signed = {'S': True, 'U': False}\<close>.\<close>

definition is_signed :: "string \<rightharpoonup> bool" where
  "is_signed = [''S'' \<mapsto> True, ''U'' \<mapsto> False]"

text \<open>\<^verbatim>\<open>1 << n\<close>: a negative shift count raises \<open>ValueError\<close>.\<close>

definition py_shl1 :: "int \<Rightarrow> exn + int" where
  "py_shl1 n = (if n < 0 then Inl ValueError else Inr (2 ^ nat n))"

text \<open>
  \<^verbatim>\<open>AlsaDeviceConfig\<close> of alsaloop.py.  \<open>cfg_period_time\<close> is the exact quotient; the
  source holds the double nearest to it.
\<close>

record AlsaDeviceConfig =
  cfg_pcm_name :: string
  cfg_format :: string
  cfg_size :: int
  cfg_signed :: bool
  cfg_endian :: "string option"
  cfg_channels :: int
  cfg_rate :: int
  cfg_frame_size :: int
  cfg_period_size :: int
  cfg_period_time :: rat
  cfg_maxamp :: int
  cfg_reference :: int

text \<open>
  What the first part of \<^verbatim>\<open>AlsaDeviceConfig.__init__\<close> leaves behind: the local
  \<^verbatim>\<open>bits\<close> (bound only on the matching branch), the format name, size, signedness and
  endianness, and the warnings emitted.
\<close>

record parsed_format =
  pf_bits :: "string option"
  pf_format :: string
  pf_size :: int
  pf_signed :: bool
  pf_endian :: "string option"
  pf_warnings :: "string list"

definition alsa_parse :: "string \<Rightarrow> exn + parsed_format" where
  "alsa_parse pcm_data_format =
     (case fmt_matcher pcm_data_format of
        Some (sign, bits, endian) \<Rightarrow>
          (case bits of
             None \<Rightarrow> Inl TypeError
           | Some b \<Rightarrow>
              (case py_int b of
                 Inl e \<Rightarrow> Inl e
               | Inr n \<Rightarrow>
                  (case Option.bind sign is_signed of
                     None \<Rightarrow> Inl KeyError
                   | Some sg \<Rightarrow>
                       Inr \<lparr>pf_bits = Some b, pf_format = pcm_data_format, pf_size = n div 8,
                            pf_signed = sg, pf_endian = endian, pf_warnings = []\<rparr>)))
      | None \<Rightarrow>
          Inr \<lparr>pf_bits = None, pf_format = ''PCM_FORMAT_S16_LE'', pf_size = 2,
               pf_signed = True, pf_endian = Some ''LE'',
               pf_warnings = [''Invalid format string. Falling back to 'PCM_FORMAT_S16_LE' '']\<rparr>)"

text \<open>
  \<^verbatim>\<open>AlsaDeviceConfig.__init__\<close>: the statements after the branch, in the source's
  order.  \<^verbatim>\<open>period_frames / rate\<close> raises on a zero rate; \<^verbatim>\<open>1 << int(bits) - 1\<close>
  reads the local \<^verbatim>\<open>bits\<close>, which is unbound after the fallback branch.
  The result carries the warnings emitted.
\<close>

definition AlsaDeviceConfig_init ::
  "string \<Rightarrow> string \<Rightarrow> int \<Rightarrow> int \<Rightarrow> int \<Rightarrow> exn + (AlsaDeviceConfig \<times> string list)" where
  "AlsaDeviceConfig_init pcm_name pcm_data_format channels rate period_frames =
     (case alsa_parse pcm_data_format of
        Inl e \<Rightarrow> Inl e
      | Inr pf \<Rightarrow>
         if rate = 0 then Inl ZeroDivisionError
         else
          (case pf_bits pf of
             None \<Rightarrow> Inl UnboundLocalError
           | Some b \<Rightarrow>
              (case py_int b of
                 Inl e \<Rightarrow> Inl e
               | Inr n \<Rightarrow>
                  (case py_shl1 (n - 1) of
                     Inl e \<Rightarrow> Inl e
                   | Inr amp \<Rightarrow>
                      Inr (\<lparr>cfg_pcm_name = pcm_name, cfg_format = pf_format pf,
                            cfg_size = pf_size pf, cfg_signed = pf_signed pf,
                            cfg_endian = pf_endian pf, cfg_channels = channels,
                            cfg_rate = rate, cfg_frame_size = channels * pf_size pf,
                            cfg_period_size = period_frames,
                            cfg_period_time = of_int period_frames / of_int rate,
                            cfg_maxamp = amp,
                            cfg_reference = (if pf_signed pf then 0 else amp)\<rparr>,
                           pf_warnings pf)))))"

text \<open>
  \<^verbatim>\<open>StreamMeta.__init__\<close> of usbloop.py: no test of the match result, so
  \<^verbatim>\<open>res.groups()\<close> on \<^verbatim>\<open>None\<close> raises \<open>AttributeError\<close>.
\<close>

record StreamMeta =
  meta_format :: string
  meta_size :: int
  meta_signed :: bool
  meta_endian :: "string option"
  meta_channels :: int
  meta_rate :: int
  meta_frame_size :: int
  meta_period_size :: int
  meta_period_time :: rat
  meta_maxamp :: int
  meta_reference :: int

definition StreamMeta_init :: "string \<Rightarrow> int \<Rightarrow> int \<Rightarrow> int \<Rightarrow> exn + StreamMeta" where
  "StreamMeta_init pcm_data_format channels rate period_frames =
     (case fmt_matcher pcm_data_format of
        None \<Rightarrow> Inl AttributeError
      | Some (sign, bits, endian) \<Rightarrow>
         (case bits of
            None \<Rightarrow> Inl TypeError
          | Some b \<Rightarrow>
             (case py_int b of
                Inl e \<Rightarrow> Inl e
              | Inr n \<Rightarrow>
                 (case Option.bind sign is_signed of
                    None \<Rightarrow> Inl KeyError
                  | Some sg \<Rightarrow>
                     if rate = 0 then Inl ZeroDivisionError
                     else
                      (case py_shl1 (n - 1) of
                         Inl e \<Rightarrow> Inl e
                       | Inr amp \<Rightarrow>
                          Inr \<lparr>meta_format = pcm_data_format, meta_size = n div 8,
                               meta_signed = sg, meta_endian = endian,
                               meta_channels = channels, meta_rate = rate,
                               meta_frame_size = channels * (n div 8),
                               meta_period_size = period_frames,
                               meta_period_time = of_int period_frames / of_int rate,
                               meta_maxamp = amp,
                               meta_reference = (if sg then 0 else amp)\<rparr>)))))"

section \<open>The sample decoder\<close>

text \<open>
  \<^verbatim>\<open>MemScope\<close> is the same class in both files (alsaloop.py reads the descriptor
  through \<^verbatim>\<open>dev_cfg\<close>, usbloop.py through \<^verbatim>\<open>meta\<close>).  It is modelled on
  \<open>AlsaDeviceConfig\<close>, of which it reads \<open>cfg_signed\<close>, \<open>cfg_size\<close>,
  \<open>cfg_endian\<close> and \<open>cfg_channels\<close>.
\<close>

text \<open>
  An element of an unpacked tuple: \<^verbatim>\<open>struct\<close> gives an int, or for the code
  \<^verbatim>\<open>c\<close> a bytes object of length one.
\<close>

datatype pyval = PyInt int | PyBytes bytes

definition endian_t :: "string option \<rightharpoonup> string" where
  "endian_t = [None \<mapsto> [], Some ''LE'' \<mapsto> ''<'', Some ''BE'' \<mapsto> ''>'']"

definition struct_t :: "(bool \<times> int) \<rightharpoonup> char" where
  "struct_t =
     [(True, 1) \<mapsto> CHR ''b'', (False, 1) \<mapsto> CHR ''c'',
      (True, 2) \<mapsto> CHR ''h'', (False, 2) \<mapsto> CHR ''H'',
      (True, 3) \<mapsto> CHR ''i'', (False, 3) \<mapsto> CHR ''I'',
      (True, 4) \<mapsto> CHR ''i'', (False, 4) \<mapsto> CHR ''I'']"

text \<open>
  \<^verbatim>\<open>padding_t\<close>: the four lambdas.  \<^verbatim>\<open>x[2]\<close> raises \<open>IndexError\<close> on fewer than
  three bytes.
\<close>

definition sign_byte :: "bytes \<Rightarrow> exn + byte" where
  "sign_byte x = (if length x \<le> 2 then Inl IndexError
                  else Inr (if x ! 2 < 128 then 0x00 else 0xFF))"

definition padding_t :: "(bool \<times> int \<times> string option) \<Rightarrow> (bytes \<Rightarrow> exn + bytes) option" where
  "padding_t k =
     (if k = (True, 3, Some ''LE'')
        then Some (\<lambda>x. case sign_byte x of Inl e \<Rightarrow> Inl e | Inr b \<Rightarrow> Inr (x @ [b]))
      else if k = (False, 3, Some ''LE'')
        then Some (\<lambda>x. Inr (x @ [0x00]))
      else if k = (True, 3, Some ''BE'')
        then Some (\<lambda>x. case sign_byte x of Inl e \<Rightarrow> Inl e | Inr b \<Rightarrow> Inr ([b] @ x))
      else if k = (False, 3, Some ''BE'')
        then Some (\<lambda>x. Inr ([0xFF] @ x))
      else None)"

text \<open>\<^verbatim>\<open>self.padding = self.padding_t.get(pad_lookup, lambda x: x)\<close>\<close>

definition padding :: "AlsaDeviceConfig \<Rightarrow> bytes \<Rightarrow> exn + bytes" where
  "padding cfg =
     (case padding_t (cfg_signed cfg, cfg_size cfg, cfg_endian cfg) of
        Some f \<Rightarrow> f
      | None \<Rightarrow> (\<lambda>x. Inr x))"

text \<open>
  \<^verbatim>\<open>_struct_str\<close>: both table lookups raise \<open>KeyError\<close> on a missing key; a string
  times a non-positive count is empty.
\<close>

definition struct_str :: "AlsaDeviceConfig \<Rightarrow> exn + string" where
  "struct_str cfg =
     (case endian_t (cfg_endian cfg) of
        None \<Rightarrow> Inl KeyError
      | Some endian \<Rightarrow>
         (case struct_t (cfg_signed cfg, cfg_size cfg) of
            None \<Rightarrow> Inl KeyError
          | Some code \<Rightarrow> Inr (endian @ replicate (nat (cfg_channels cfg)) code)))"

subsection \<open>The struct module, for the formats that \<open>struct_str\<close> builds\<close>

text \<open>
  A format is an optional byte-order mark and a run of item codes.  Without a mark the
  host's byte order and alignment apply; items of one kind need no alignment padding.
  \<open>host_be\<close> says whether the host is big-endian.
\<close>

definition item_size :: "char \<Rightarrow> nat" where
  "item_size c =
     (if c = CHR ''b'' \<or> c = CHR ''c'' then 1
      else if c = CHR ''h'' \<or> c = CHR ''H'' then 2
      else 4)"

definition fmt_big :: "bool \<Rightarrow> string \<Rightarrow> bool" where
  "fmt_big host_be f =
     (case f of [] \<Rightarrow> host_be
      | c # _ \<Rightarrow> if c = CHR ''>'' then True else if c = CHR ''<'' then False else host_be)"

definition fmt_codes :: "string \<Rightarrow> string" where
  "fmt_codes f =
     (case f of [] \<Rightarrow> []
      | c # cs \<Rightarrow> if c = CHR ''>'' \<or> c = CHR ''<'' then cs else f)"

definition calcsize :: "string \<Rightarrow> nat" where
  "calcsize f = sum_list (map item_size (fmt_codes f))"

definition le_uint :: "bytes \<Rightarrow> int" where
  "le_uint bs = foldr (\<lambda>b acc. uint b + 256 * acc) bs 0"

definition to_signed :: "nat \<Rightarrow> int \<Rightarrow> int" where
  "to_signed n v = (if v \<ge> 2 ^ (8 * n - 1) then v - 2 ^ (8 * n) else v)"

definition unpack_item :: "bool \<Rightarrow> char \<Rightarrow> bytes \<Rightarrow> pyval" where
  "unpack_item big c bs =
     (let u = le_uint (if big then rev bs else bs)
      in if c = CHR ''c'' then PyBytes bs
         else if c = CHR ''b'' \<or> c = CHR ''h'' \<or> c = CHR ''i''
           then PyInt (to_signed (length bs) u)
         else PyInt u)"

fun unpack_items :: "bool \<Rightarrow> string \<Rightarrow> bytes \<Rightarrow> pyval list" where
  "unpack_items big [] bs = []"
| "unpack_items big (c # cs) bs =
     unpack_item big c (take (item_size c) bs) # unpack_items big cs (drop (item_size c) bs)"

text \<open>
  \<^verbatim>\<open>Struct(f).unpack(chunk)\<close>: \<^verbatim>\<open>struct.error\<close> unless the chunk has exactly the
  format's size.
\<close>

definition struct_unpack :: "bool \<Rightarrow> string \<Rightarrow> bytes \<Rightarrow> exn + pyval list" where
  "struct_unpack host_be f chunk =
     (if length chunk \<noteq> calcsize f then Inl StructError
      else Inr (unpack_items (fmt_big host_be f) (fmt_codes f) chunk))"

subsection \<open>The iterator\<close>

record MemScope =
  ms_cfg :: AlsaDeviceConfig
  ms_data :: bytes
  ms_pos :: nat
  ms_struct :: string

definition MemScope_init :: "bytes \<Rightarrow> AlsaDeviceConfig \<Rightarrow> exn + MemScope" where
  "MemScope_init data dev_cfg =
     (case struct_str dev_cfg of
        Inl e \<Rightarrow> Inl e
      | Inr f \<Rightarrow> Inr \<lparr>ms_cfg = dev_cfg, ms_data = data, ms_pos = 0, ms_struct = f\<rparr>)"

text \<open>\<^verbatim>\<open>__iter__\<close>: \<^verbatim>\<open>self.buffer.seek(0)\<close>\<close>

definition MemScope_iter :: "MemScope \<Rightarrow> MemScope" where
  "MemScope_iter ms = ms\<lparr>ms_pos := 0\<rparr>"

text \<open>
  \<^verbatim>\<open>BytesIO.read(n)\<close>: at most \<open>n\<close> bytes from the position, all of the rest for a
  negative \<open>n\<close>.
\<close>

definition bio_read :: "bytes \<Rightarrow> nat \<Rightarrow> int \<Rightarrow> bytes" where
  "bio_read data pos n = (if n < 0 then drop pos data else take (nat n) (drop pos data))"

text \<open>
  The loop of \<^verbatim>\<open>__next__\<close> over \<^verbatim>\<open>range(channels)\<close>, with the channels still to
  read, the position and the chunk so far; the position moves with every read, also
  when the padding raises.
\<close>

fun read_chunk :: "AlsaDeviceConfig \<Rightarrow> nat \<Rightarrow> bytes \<Rightarrow> nat \<Rightarrow> bytes \<Rightarrow> (exn + bytes) \<times> nat" where
  "read_chunk cfg 0 data pos chunk = (Inr chunk, pos)"
| "read_chunk cfg (Suc n) data pos chunk =
     (let x = bio_read data pos (cfg_size cfg); pos' = pos + length x
      in case padding cfg x of
           Inl e \<Rightarrow> (Inl e, pos')
         | Inr y \<Rightarrow> read_chunk cfg n data pos' (chunk @ y))"

text \<open>
  \<^verbatim>\<open>__next__\<close>: \<open>None\<close> is \<^verbatim>\<open>StopIteration\<close>, raised for \<^verbatim>\<open>struct.error\<close> and
  \<open>IndexError\<close>, the only exceptions the body can raise.
\<close>

definition MemScope_next :: "bool \<Rightarrow> MemScope \<Rightarrow> pyval list option \<times> MemScope" where
  "MemScope_next host_be ms =
     (let rp = read_chunk (ms_cfg ms) (nat (cfg_channels (ms_cfg ms))) (ms_data ms) (ms_pos ms) [];
          ms' = ms\<lparr>ms_pos := snd rp\<rparr>
      in case fst rp of
           Inl e \<Rightarrow> (None, ms')
         | Inr chunk \<Rightarrow>
            (case struct_unpack host_be (ms_struct ms) chunk of
               Inl e \<Rightarrow> (None, ms')
             | Inr frame \<Rightarrow> (Some frame, ms')))"

text \<open>
  Running the iterator to its end, as \<^verbatim>\<open>list(...)\<close> or a \<^verbatim>\<open>for\<close> loop without
  \<^verbatim>\<open>break\<close> does.  With no channels a frame takes no bytes and the iteration never
  ends: the result is \<open>None\<close> then.
\<close>

partial_function (option) ms_collect :: "bool \<Rightarrow> MemScope \<Rightarrow> pyval list list option" where
  "ms_collect host_be ms =
     (case fst (MemScope_next host_be ms) of
        None \<Rightarrow> Some []
      | Some frame \<Rightarrow>
          Option.bind (ms_collect host_be (snd (MemScope_next host_be ms)))
            (\<lambda>rest. Some (frame # rest)))"

declare ms_collect.simps [code]

definition decode_all :: "bool \<Rightarrow> bytes \<Rightarrow> AlsaDeviceConfig \<Rightarrow> exn + pyval list list option" where
  "decode_all host_be data cfg =
     (case MemScope_init data cfg of
        Inl e \<Rightarrow> Inl e
      | Inr ms \<Rightarrow> Inr (ms_collect host_be (MemScope_iter ms)))"

text \<open>\<^verbatim>\<open>islice(MemScope(...), n)\<close>: at most \<open>n\<close> frames.\<close>

fun ms_islice :: "bool \<Rightarrow> nat \<Rightarrow> MemScope \<Rightarrow> pyval list list" where
  "ms_islice host_be 0 ms = []"
| "ms_islice host_be (Suc n) ms =
     (case fst (MemScope_next host_be ms) of
        None \<Rightarrow> []
      | Some frame \<Rightarrow> frame # ms_islice host_be n (snd (MemScope_next host_be ms)))"

subsection \<open>Auxiliary notions for the decoder proofs\<close>

text \<open>
  The formats of the tables: sizes one to four with an explicit byte order.  A field of
  such a format is \<open>pad_len\<close> bytes long once padded.
\<close>

definition supported :: "AlsaDeviceConfig \<Rightarrow> bool" where
  "supported cfg \<longleftrightarrow>
     cfg_size cfg \<in> {1, 2, 3, 4} \<and> cfg_endian cfg \<in> {Some ''LE'', Some ''BE''}"

definition pad_len :: "AlsaDeviceConfig \<Rightarrow> nat" where
  "pad_len cfg = (if cfg_size cfg = 3 then 4 else nat (cfg_size cfg))"

section \<open>The threshold engine\<close>

text \<open>
  Python floats are modelled as reals: the thresholds are the exact values of the
  formulas, not their roundings to doubles.
\<close>

record HystComp =
  hc_low :: real
  hc_high :: real

text \<open>\<^verbatim>\<open>HystComp.comp(val)\<close>: the pair \<^verbatim>\<open>(low, high)\<close> of the named tuple.\<close>

definition comp :: "HystComp \<Rightarrow> real \<Rightarrow> bool \<times> bool" where
  "comp h val = (val \<le> hc_low h, val \<ge> hc_high h)"

text \<open>\<^verbatim>\<open>LoopStateMachine.__reverse_db\<close> of alsaloop.py.\<close>

definition reverse_db :: "int \<Rightarrow> real \<Rightarrow> real" where
  "reverse_db maxamp db = real_of_int maxamp * 10 powr (db / 20)"

text \<open>
  The setter of \<^verbatim>\<open>LoopStateMachine.probe\<close>: the first argument of \<^verbatim>\<open>HystComp\<close> is
  its \<^verbatim>\<open>low\<close>, the second its \<^verbatim>\<open>high\<close>.
\<close>

definition probe_setter :: "int \<Rightarrow> real \<Rightarrow> HystComp" where
  "probe_setter maxamp val =
     (if val = 0 then \<lparr>hc_low = 0, hc_high = 0\<rparr>
      else let v = - \<bar>val\<bar>
           in \<lparr>hc_low = reverse_db maxamp v, hc_high = reverse_db maxamp (v - 3)\<rparr>)"

text \<open>
  usbloop.py: \<^verbatim>\<open>FSM.__reverse_db\<close> takes the absolute value itself, and
  \<^verbatim>\<open>FSM.__init__\<close> builds \<^verbatim>\<open>Thresholds(start, stop)\<close> from it.
\<close>

record Thresholds =
  th_start :: real
  th_stop :: real

definition usb_reverse_db :: "int \<Rightarrow> real \<Rightarrow> real" where
  "usb_reverse_db maxamp db = real_of_int maxamp * 10 powr (- \<bar>db\<bar> / 20)"

definition usb_thresholds :: "int \<Rightarrow> real \<Rightarrow> Thresholds" where
  "usb_thresholds maxamp threshold_db =
     \<lparr>th_start = usb_reverse_db maxamp threshold_db,
      th_stop = usb_reverse_db maxamp (threshold_db - 3)\<rparr>"

subsection \<open>The probe statistic\<close>

text \<open>
  \<^verbatim>\<open>[abs(val - reference) for packet in samples for val in packet]\<close>: subtracting an
  int from a bytes object raises \<open>TypeError\<close>.
\<close>

fun deviations :: "int \<Rightarrow> pyval list \<Rightarrow> exn + int list" where
  "deviations ref [] = Inr []"
| "deviations ref (PyInt v # vs) =
     (case deviations ref vs of Inl e \<Rightarrow> Inl e | Inr ds \<Rightarrow> Inr (\<bar>v - ref\<bar> # ds))"
| "deviations ref (PyBytes b # vs) = Inl TypeError"

text \<open>
  \<^verbatim>\<open>statistics.median\<close>: no data raises \<^verbatim>\<open>StatisticsError\<close>; an even count gives
  the mean of the two middle values.
\<close>

definition median :: "int list \<Rightarrow> exn + real" where
  "median data =
     (let d = sort data; n = length d
      in if n = 0 then Inl StatisticsError
         else if n mod 2 = 1 then Inr (real_of_int (d ! (n div 2)))
         else Inr ((real_of_int (d ! (n div 2 - 1)) + real_of_int (d ! (n div 2))) / 2))"

text \<open>
  The getter of \<^verbatim>\<open>LoopStateMachine.probe\<close>, on the current buffer.  \<^verbatim>\<open>islice\<close>
  refuses a negative count with \<open>ValueError\<close>.
\<close>

definition probe ::
  "bool \<Rightarrow> HystComp \<Rightarrow> AlsaDeviceConfig \<Rightarrow> int \<Rightarrow> bytes \<Rightarrow> exn + (bool \<times> bool)" where
  "probe host_be threscomp capture_cfg sample_size buffer =
     (case MemScope_init buffer capture_cfg of
        Inl e \<Rightarrow> Inl e
      | Inr ms \<Rightarrow>
         if sample_size < 0 then Inl ValueError
         else
          (case deviations (cfg_reference capture_cfg)
                  (concat (ms_islice host_be (nat sample_size) (MemScope_iter ms))) of
             Inl e \<Rightarrow> Inl e
           | Inr data \<Rightarrow>
              (case median data of
                 Inl e \<Rightarrow> Inl e
               | Inr med \<Rightarrow> Inr (comp threscomp med))))"

section \<open>Concrete descriptors\<close>

text \<open>
  The descriptors that \<open>AlsaDeviceConfig_init\<close> builds for four format names, with the
  other arguments at their defaults or set as shown; the properties below are evaluated
  on them.
\<close>

definition cfg_u8 :: AlsaDeviceConfig where
  "cfg_u8 =
     \<lparr>cfg_pcm_name = ''default'', cfg_format = ''PCM_FORMAT_U8'', cfg_size = 1,
      cfg_signed = False, cfg_endian = None, cfg_channels = 2, cfg_rate = 48000,
      cfg_frame_size = 2, cfg_period_size = 1024, cfg_period_time = 1024 / 48000,
      cfg_maxamp = 128, cfg_reference = 128\<rparr>"

definition cfg_u24be :: AlsaDeviceConfig where
  "cfg_u24be =
     \<lparr>cfg_pcm_name = ''default'', cfg_format = ''PCM_FORMAT_U24_BE'', cfg_size = 3,
      cfg_signed = False, cfg_endian = Some ''BE'', cfg_channels = 1, cfg_rate = 48000,
      cfg_frame_size = 3, cfg_period_size = 1024, cfg_period_time = 1024 / 48000,
      cfg_maxamp = 8388608, cfg_reference = 8388608\<rparr>"

definition cfg_s24le :: AlsaDeviceConfig where
  "cfg_s24le =
     \<lparr>cfg_pcm_name = ''default'', cfg_format = ''PCM_FORMAT_S24_LE'', cfg_size = 3,
      cfg_signed = True, cfg_endian = Some ''LE'', cfg_channels = 2, cfg_rate = 48000,
      cfg_frame_size = 6, cfg_period_size = 1024, cfg_period_time = 1024 / 48000,
      cfg_maxamp = 8388608, cfg_reference = 0\<rparr>"

definition cfg_s16le :: AlsaDeviceConfig where
  "cfg_s16le =
     \<lparr>cfg_pcm_name = ''default'', cfg_format = ''PCM_FORMAT_S16_LE'', cfg_size = 2,
      cfg_signed = True, cfg_endian = Some ''LE'', cfg_channels = 2, cfg_rate = 48000,
      cfg_frame_size = 4, cfg_period_size = 1024, cfg_period_time = 1024 / 48000,
      cfg_maxamp = 32768, cfg_reference = 0\<rparr>"

section \<open>The loop controller of alsaloop.py\<close>

subsection \<open>Configuration\<close>

text \<open>
  Modelled from the spec: the enumerations \<^verbatim>\<open>PlayerState\<close> and \<^verbatim>\<open>PlayerCommand\<close> and the
  class \<^verbatim>\<open>ProbeConfig\<close> of the module \<^verbatim>\<open>config\<close>, which alsaloop.py imports and which is
  not among the sources.  The members and fields are those that alsaloop.py names (it
  spells \<^verbatim>\<open>HYBERNATE\<close> and \<^verbatim>\<open>hybernate_interval\<close>); the commands are the spec's
  two, \<^verbatim>\<open>PLAY\<close> and \<^verbatim>\<open>STOP\<close>.
\<close>

datatype PlayerState = UNKNOWN | HYBERNATE | IDLE | PLAY | KILLED

datatype PlayerCommand = Cmd_STOP | Cmd_PLAY

record ProbeConfig =
  sensitivity :: real
  sample_size :: int
  start_count :: int
  stop_count :: int
  idle_interval :: rat
  follow_interval :: rat
  stream_interval :: rat
  hybernate_interval :: rat

subsection \<open>Device ports\<close>

text \<open>
  What the sound devices answer is an input of the model.  A task that runs is handed
  the answers of the device calls it makes until it next suspends: the results of the
  capture device's raw \<^verbatim>\<open>read()\<close> calls, the outcome of constructing and opening a
  playback device, and the results of the playback device's raw \<^verbatim>\<open>write()\<close> calls.
  \<^verbatim>\<open>close()\<close> does not raise.
\<close>

record io =
  io_reads :: "(exn + int \<times> bytes) list"
  io_open :: "exn option"
  io_writes :: "(exn + int) list"

text \<open>
  \<^verbatim>\<open>CaptureDevice.read\<close>: retry until the device returns a positive length.  \<open>None\<close>:
  the answers given are used up and the call has not returned yet.
\<close>

fun CaptureDevice_read ::
  "(exn + int \<times> bytes) list \<Rightarrow> ((exn + bytes) \<times> (exn + int \<times> bytes) list) option" where
  "CaptureDevice_read [] = None"
| "CaptureDevice_read (Inl e # rest) = Some (Inl e, rest)"
| "CaptureDevice_read (Inr (len, data) # rest) =
     (if len > 0 then Some (Inr data, rest) else CaptureDevice_read rest)"

text \<open>\<^verbatim>\<open>PlaybackDevice.write\<close>: retry while the device reports nothing written.\<close>

fun PlaybackDevice_write ::
  "(exn + int) list \<Rightarrow> ((exn + int) \<times> (exn + int) list) option" where
  "PlaybackDevice_write [] = None"
| "PlaybackDevice_write (Inl e # rest) = Some (Inl e, rest)"
| "PlaybackDevice_write (Inr written # rest) =
     (if written = 0 then PlaybackDevice_write rest else Some (Inr written, rest))"

subsection \<open>Tasks, timers and the controller's state\<close>

text \<open>
  A coroutine of \<^verbatim>\<open>LoopStateMachine\<close> that has not started, or is suspended at one of
  its \<^verbatim>\<open>await\<close>s, with the values of its locals:
  \<^item> \<open>Run_get\<close>: \<^verbatim>\<open>run\<close> in \<^verbatim>\<open>await self.rxq.get()\<close>; \<open>Run_gather cmd\<close>: \<^verbatim>\<open>run\<close> in
    the \<^verbatim>\<open>await asyncio.gather(...)\<close> of \<^verbatim>\<open>_gather\<close>, holding \<^verbatim>\<open>cmd\<close>;
  \<^item> \<open>Idle_sleep c\<close>: \<^verbatim>\<open>_idle\<close> in one of the two sleeps that end its loop body, with
    \<^verbatim>\<open>counter = c\<close>; \<open>Idle_sleep_play c\<close>: in the sleep between starting the stream and
    starting the monitor;
  \<^item> \<open>Monitor_sleep c\<close>, and \<open>Monitor_sleep_idle c\<close> for the sleep between setting
    \<^verbatim>\<open>IDLE\<close> and starting \<^verbatim>\<open>_idle\<close>;
  \<^item> \<open>Stream_sleep\<close>: \<^verbatim>\<open>_stream\<close> in the sleep of its loop, the playback device open;
  \<^item> \<open>Shutdown_gather\<close>, \<open>Restart_gather cfg\<close>: in the gather of \<^verbatim>\<open>_gather\<close>.
\<close>

datatype coro =
    Run_new | Run_get | Run_gather PlayerCommand
  | Wake_new
  | Idle_new | Idle_sleep int | Idle_sleep_play int
  | Monitor_new | Monitor_sleep int | Monitor_sleep_idle int
  | Stream_new | Stream_sleep
  | Shutdown_new | Shutdown_gather
  | Restart_new ProbeConfig | Restart_gather ProbeConfig

text \<open>What a suspended task waits for: nothing (it is scheduled to run), a time, an item
  on the command queue, or the end of the listed tasks.\<close>

datatype wait = Ready | Until rat | OnQueue | OnTasks "nat list"

record task =
  t_id :: nat
  t_coro :: coro
  t_wait :: wait
  t_cancel :: bool

datatype outcome = Returned | Cancelled | Raised exn

text \<open>
  The fields of the \<^verbatim>\<open>LoopStateMachine\<close> object, and the event loop it runs on: the
  tasks that are not done (\<^verbatim>\<open>asyncio.all_tasks()\<close>), the pending \<^verbatim>\<open>call_later\<close> handles
  with their due times, the outcome of the tasks that are done, the clock, and whether
  \<^verbatim>\<open>loop.stop()\<close> has been called.  \<open>playback_open\<close> counts the open playback devices;
  \<open>loop_set\<close> says whether \<^verbatim>\<open>run\<close> has assigned \<^verbatim>\<open>self.loop\<close>, which \<^verbatim>\<open>__init__\<close> does not.
\<close>

record sys =
  rxq :: "PlayerCommand list"
  capture_cfg :: AlsaDeviceConfig
  playback_cfg :: AlsaDeviceConfig
  probe_cfg :: ProbeConfig
  threscomp :: HystComp
  local_state :: PlayerState
  buffer :: bytes
  tasks :: "task list"
  timers :: "(rat \<times> coro) list"
  finished :: "(nat \<times> outcome) list"
  next_id :: nat
  now :: rat
  stopped :: bool
  capture_open :: bool
  playback_open :: nat
  logged :: "string list"
  host_order_be :: bool
  loop_set :: bool

text \<open>How a task's run ends: suspended at an \<^verbatim>\<open>await\<close>, done, or still inside a device
  call when the answers given are used up.\<close>

datatype result = Suspend coro wait | Finish outcome | Blocked

text \<open>
  \<^verbatim>\<open>__init__\<close> and \<^verbatim>\<open>open()\<close>, and \<^verbatim>\<open>run()\<close> made a task of the loop (task 0).  The
  setter of \<^verbatim>\<open>probe\<close> derives the thresholds from the configured sensitivity.
\<close>

definition init_sys :: "AlsaDeviceConfig \<Rightarrow> AlsaDeviceConfig \<Rightarrow> ProbeConfig \<Rightarrow> bool \<Rightarrow> sys" where
  "init_sys ccfg pcfg pc hb =
     \<lparr>rxq = [], capture_cfg = ccfg, playback_cfg = pcfg, probe_cfg = pc,
      threscomp = probe_setter (cfg_maxamp ccfg) (sensitivity pc),
      local_state = UNKNOWN, buffer = [],
      tasks = [\<lparr>t_id = 0, t_coro = Run_new, t_wait = Ready, t_cancel = False\<rparr>],
      timers = [], finished = [], next_id = 1, now = 0, stopped = False,
      capture_open = True, playback_open = 0, logged = [], host_order_be = hb, loop_set = False\<rparr>"

text \<open>A coroutine made a task of the loop, and \<^verbatim>\<open>loop.call_later(delay, asyncio.create_task, coro)\<close>.\<close>

definition create_task :: "coro \<Rightarrow> sys \<Rightarrow> sys" where
  "create_task c s =
     s\<lparr>tasks := tasks s @ [\<lparr>t_id = next_id s, t_coro = c, t_wait = Ready, t_cancel = False\<rparr>],
       next_id := Suc (next_id s)\<rparr>"

text \<open>
  \<^verbatim>\<open>self.loop.create_task(coro)\<close> in a coroutine of the controller: \<^verbatim>\<open>self.loop\<close> is
  an attribute only once \<^verbatim>\<open>run\<close> has assigned it.
\<close>

definition loop_create_task :: "coro \<Rightarrow> sys \<Rightarrow> exn + sys" where
  "loop_create_task c s = (if loop_set s then Inr (create_task c s) else Inl AttributeError)"

definition call_later :: "rat \<Rightarrow> coro \<Rightarrow> sys \<Rightarrow> sys" where
  "call_later delay c s = s\<lparr>timers := timers s @ [(now s + delay, c)]\<rparr>"

text \<open>
  The setter of \<^verbatim>\<open>state\<close>.  Publishing the status is the status sink's business; the
  setter catches its \<open>AttributeError\<close>.
\<close>

definition set_state :: "PlayerState \<Rightarrow> sys \<Rightarrow> sys" where
  "set_state v s = s\<lparr>local_state := v\<rparr>"

definition info :: "string \<Rightarrow> sys \<Rightarrow> sys" where
  "info msg s = s\<lparr>logged := logged s @ [msg]\<rparr>"

text \<open>
  \<^verbatim>\<open>_gather\<close>, up to its \<^verbatim>\<open>await\<close>: every task of the loop but the running one is
  asked to cancel.  The result lists the tasks to wait for; the caller does not suspend
  when there is none.
\<close>

definition gather :: "nat \<Rightarrow> sys \<Rightarrow> nat list \<times> sys" where
  "gather self s =
     (let others = filter (\<lambda>t. t_id t \<noteq> self) (tasks s)
      in (map t_id others,
          info ''Cancelling outstanding tasks''
            (s\<lparr>tasks := map (\<lambda>t. if t_id t \<noteq> self then t\<lparr>t_cancel := True\<rparr> else t) (tasks s)\<rparr>)))"

subsection \<open>run\<close>

text \<open>The table \<^verbatim>\<open>manifests\<close> of \<^verbatim>\<open>run\<close>: the state, the delay and the coroutine of a
  command.\<close>

definition manifests :: "ProbeConfig \<Rightarrow> PlayerCommand \<Rightarrow> PlayerState \<times> rat \<times> coro" where
  "manifests pc cmd =
     (case cmd of
        Cmd_STOP \<Rightarrow> (HYBERNATE, hybernate_interval pc, Wake_new)
      | Cmd_PLAY \<Rightarrow> (IDLE, idle_interval pc, Idle_new))"

text \<open>The loop body of \<^verbatim>\<open>run\<close> after \<^verbatim>\<open>await self._gather()\<close>.\<close>

definition dispatch :: "PlayerCommand \<Rightarrow> sys \<Rightarrow> sys" where
  "dispatch cmd s =
     (case manifests (probe_cfg s) cmd of
        (st, delay, c) \<Rightarrow>
          call_later delay c (set_state st (info ''Received command. Dispatching'' s)))"

text \<open>
  The loop of \<^verbatim>\<open>run\<close> over the commands on the queue, entered either at its head,
  where \<^verbatim>\<open>while self.state is not PlayerState.KILLED\<close> is tested (\<open>at_head\<close>), or
  inside \<^verbatim>\<open>await self.rxq.get()\<close>, where it is not.  Neither \<^verbatim>\<open>rxq.get()\<close> on a queue
  that holds an item nor a gather of no task suspends, so one run of the task may
  dispatch several commands.  \<^verbatim>\<open>run\<close> has assigned \<^verbatim>\<open>self.loop\<close> before its first
  \<^verbatim>\<open>await\<close>.
\<close>

fun run_loop :: "bool \<Rightarrow> nat \<Rightarrow> PlayerCommand list \<Rightarrow> sys \<Rightarrow> sys \<times> result" where
  "run_loop at_head self [] s =
     (if at_head \<and> local_state s = KILLED then (s\<lparr>rxq := []\<rparr>, Finish Returned)
      else (s\<lparr>rxq := []\<rparr>, Suspend Run_get OnQueue))"
| "run_loop at_head self (cmd # q) s =
     (if at_head \<and> local_state s = KILLED then (s\<lparr>rxq := cmd # q\<rparr>, Finish Returned)
      else
        (case gather self (s\<lparr>rxq := q\<rparr>) of
           (ids, s') \<Rightarrow>
             if ids \<noteq> [] then (s', Suspend (Run_gather cmd) (OnTasks ids))
             else run_loop True self q (dispatch cmd s')))"

subsection \<open>_idle and _monitor\<close>

text \<open>The getter of \<^verbatim>\<open>probe\<close> on the controller's buffer.\<close>

definition sys_probe :: "sys \<Rightarrow> exn + (bool \<times> bool)" where
  "sys_probe s =
     probe (host_order_be s) (threscomp s) (capture_cfg s) (sample_size (probe_cfg s)) (buffer s)"

text \<open>One turn of the loop of \<^verbatim>\<open>_idle\<close>, from the loop's head with the counter \<open>c\<close> to
  the next sleep.\<close>

definition idle_loop :: "int \<Rightarrow> io \<Rightarrow> sys \<Rightarrow> sys \<times> result" where
  "idle_loop c i s =
     (if local_state s \<noteq> IDLE then (s, Finish Returned)
      else
       (case CaptureDevice_read (io_reads i) of
          None \<Rightarrow> (s, Blocked)
        | Some (Inl e, _) \<Rightarrow> (s, Finish (Raised e))
        | Some (Inr data, _) \<Rightarrow>
           (let s1 = s\<lparr>buffer := data\<rparr>
            in case sys_probe s1 of
                 Inl e \<Rightarrow> (s1, Finish (Raised e))
               | Inr (lo, hi) \<Rightarrow>
                  (let c' = (if hi then c + 1 else 0)
                   in if c' \<ge> start_count (probe_cfg s1)
                        then (case loop_create_task Stream_new (set_state PLAY s1) of
                                Inl e \<Rightarrow> (set_state PLAY s1, Finish (Raised e))
                              | Inr s2 \<Rightarrow>
                                  (s2, Suspend (Idle_sleep_play c')
                                         (Until (now s1 + stream_interval (probe_cfg s1)))))
                      else if c' > 0
                        then (s1, Suspend (Idle_sleep c')
                                    (Until (now s1 + follow_interval (probe_cfg s1))))
                      else (s1, Suspend (Idle_sleep c')
                                  (Until (now s1 + idle_interval (probe_cfg s1))))))))"

text \<open>One turn of the loop of \<^verbatim>\<open>_monitor\<close>.\<close>

definition monitor_loop :: "int \<Rightarrow> sys \<Rightarrow> sys \<times> result" where
  "monitor_loop c s =
     (if local_state s \<noteq> PLAY then (s, Finish Returned)
      else
       (case sys_probe s of
          Inl e \<Rightarrow> (s, Finish (Raised e))
        | Inr (lo, hi) \<Rightarrow>
           (let c' = (if lo then c + 1 else 0)
            in if c' \<ge> stop_count (probe_cfg s)
                 then (set_state IDLE s,
                       Suspend (Monitor_sleep_idle c')
                         (Until (now s + idle_interval (probe_cfg s))))
               else if c' > 0
                 then (s, Suspend (Monitor_sleep c')
                            (Until (now s + follow_interval (probe_cfg s))))
               else (s, Suspend (Monitor_sleep c')
                          (Until (now s + stream_interval (probe_cfg s)))))))"

subsection \<open>_stream\<close>

text \<open>
  \<^verbatim>\<open>AlsaDevice.__exit__\<close> of alsaloop.py closes the device and returns \<^verbatim>\<open>None\<close>: an
  exception of the \<^verbatim>\<open>with\<close> body goes on to the enclosing \<^verbatim>\<open>try\<close>.
\<close>

definition playback_exit :: "sys \<Rightarrow> sys" where
  "playback_exit s = s\<lparr>playback_open := playback_open s - 1\<rparr>"

text \<open>
  The body of the \<^verbatim>\<open>try\<close> statement of \<^verbatim>\<open>_stream\<close>, in two parts: the loop from its
  head, inside the \<^verbatim>\<open>with\<close> block, and the block's beginning.  The result is the
  exception that leaves the \<^verbatim>\<open>try\<close> body, or how the task goes on.
\<close>

definition stream_loop :: "io \<Rightarrow> (exn + int) list \<Rightarrow> sys \<Rightarrow> sys \<times> (exn + result)" where
  "stream_loop i ws s =
     (if local_state s \<noteq> PLAY then (playback_exit s, Inr (Finish Returned))
      else
       (case CaptureDevice_read (io_reads i) of
          None \<Rightarrow> (s, Inr Blocked)
        | Some (Inl e, _) \<Rightarrow> (playback_exit s, Inl e)
        | Some (Inr data, _) \<Rightarrow>
           (let s1 = s\<lparr>buffer := data\<rparr>
            in case PlaybackDevice_write ws of
                 None \<Rightarrow> (s1, Inr Blocked)
               | Some (Inl e, _) \<Rightarrow> (playback_exit s1, Inl e)
               | Some (Inr written, _) \<Rightarrow>
                   (s1, Inr (Suspend Stream_sleep (Until (now s1 + 1 / 1000)))))))"

definition stream_begin :: "io \<Rightarrow> sys \<Rightarrow> sys \<times> (exn + result)" where
  "stream_begin i s =
     (case io_open i of
        Some e \<Rightarrow> (s, Inl e)
      | None \<Rightarrow>
         (let s1 = s\<lparr>playback_open := playback_open s + 1\<rparr>
          in case PlaybackDevice_write (io_writes i) of
               None \<Rightarrow> (s1, Inr Blocked)
             | Some (Inl e, _) \<Rightarrow> (playback_exit s1, Inl e)
             | Some (Inr written, ws) \<Rightarrow> stream_loop i ws s1))"

text \<open>
  The \<^verbatim>\<open>except alsaaudio.ALSAAudioError\<close> clause and the end of \<^verbatim>\<open>_stream\<close>: the error
  is logged and a \<^verbatim>\<open>STOP\<close> command put on the queue; any other exception leaves the
  coroutine.
\<close>

definition stream_except :: "sys \<times> (exn + result) \<Rightarrow> sys \<times> result" where
  "stream_except r =
     (case r of
        (s, Inl e) \<Rightarrow>
          if e = ALSAAudioError
          then (info ''close playback''
                  ((info ''Error opening playback device'' s)\<lparr>rxq := rxq s @ [Cmd_STOP]\<rparr>),
                Finish Returned)
          else (s, Finish (Raised e))
      | (s, Inr (Finish out)) \<Rightarrow> (info ''close playback'' s, Finish out)
      | (s, Inr res) \<Rightarrow> (s, res))"

definition stream_start :: "io \<Rightarrow> sys \<Rightarrow> sys \<times> result" where
  "stream_start i s = stream_except (stream_begin i (info ''start redirecting'' s))"

definition stream_resume :: "io \<Rightarrow> sys \<Rightarrow> sys \<times> result" where
  "stream_resume i s = stream_except (stream_loop i (io_writes i) s)"

subsection \<open>_shutdown and _restart\<close>

text \<open>
  The end of \<^verbatim>\<open>_shutdown\<close>: \<^verbatim>\<open>self.close()\<close>, then \<^verbatim>\<open>self.loop.stop()\<close>, which raises
  \<open>AttributeError\<close> when \<^verbatim>\<open>run\<close> has not assigned \<^verbatim>\<open>self.loop\<close> yet.
\<close>

definition shutdown_end :: "sys \<Rightarrow> sys \<times> result" where
  "shutdown_end s =
     (let s1 = s\<lparr>capture_open := False\<rparr>
      in if loop_set s1 then (s1\<lparr>stopped := True\<rparr>, Finish Returned)
         else (s1, Finish (Raised AttributeError)))"

definition shutdown_start :: "nat \<Rightarrow> sys \<Rightarrow> sys \<times> result" where
  "shutdown_start self s =
     (case gather self (info ''Received exit signal'' (set_state KILLED s)) of
        (ids, s') \<Rightarrow>
          if ids \<noteq> [] then (s', Suspend Shutdown_gather (OnTasks ids))
          else shutdown_end s')"

text \<open>\<open>cfg\<close> is what \<^verbatim>\<open>__load_config()\<close> reads when the restart runs.\<close>

definition restart_end :: "ProbeConfig \<Rightarrow> sys \<Rightarrow> sys \<times> result" where
  "restart_end cfg s =
     (case loop_create_task Run_new (s\<lparr>probe_cfg := cfg\<rparr>) of
        Inl e \<Rightarrow> (s\<lparr>probe_cfg := cfg\<rparr>, Finish (Raised e))
      | Inr s1 \<Rightarrow> (s1, Finish Returned))"

definition restart_start :: "nat \<Rightarrow> ProbeConfig \<Rightarrow> sys \<Rightarrow> sys \<times> result" where
  "restart_start self cfg s =
     (case gather self (info ''Received restart signal'' (set_state UNKNOWN s)) of
        (ids, s') \<Rightarrow>
          if ids \<noteq> [] then (s', Suspend (Restart_gather cfg) (OnTasks ids))
          else restart_end cfg s')"

subsection \<open>The event loop\<close>

text \<open>
  A task runs from where it is suspended to its next \<^verbatim>\<open>await\<close> that suspends, or to
  its end.
\<close>

fun resume :: "nat \<Rightarrow> coro \<Rightarrow> io \<Rightarrow> sys \<Rightarrow> sys \<times> result" where
  "resume self Run_new i s = run_loop True self (rxq s @ [Cmd_PLAY]) (s\<lparr>loop_set := True\<rparr>)"
| "resume self Run_get i s = run_loop False self (rxq s) s"
| "resume self (Run_gather cmd) i s = run_loop True self (rxq s) (dispatch cmd s)"
| "resume self Wake_new i s =
     (case loop_create_task Idle_new (set_state IDLE s) of
        Inl e \<Rightarrow> (set_state IDLE s, Finish (Raised e))
      | Inr s1 \<Rightarrow> (s1, Finish Returned))"
| "resume self Idle_new i s = idle_loop 0 i s"
| "resume self (Idle_sleep c) i s = idle_loop c i s"
| "resume self (Idle_sleep_play c) i s =
     (case loop_create_task Monitor_new s of
        Inl e \<Rightarrow> (s, Finish (Raised e))
      | Inr s1 \<Rightarrow> idle_loop c i s1)"
| "resume self Monitor_new i s = monitor_loop 0 s"
| "resume self (Monitor_sleep c) i s = monitor_loop c s"
| "resume self (Monitor_sleep_idle c) i s =
     (case loop_create_task Idle_new s of
        Inl e \<Rightarrow> (s, Finish (Raised e))
      | Inr s1 \<Rightarrow> monitor_loop c s1)"
| "resume self Stream_new i s = stream_start i s"
| "resume self Stream_sleep i s = stream_resume i s"
| "resume self Shutdown_new i s = shutdown_start self s"
| "resume self Shutdown_gather i s = shutdown_end s"
| "resume self (Restart_new cfg) i s = restart_start self cfg s"
| "resume self (Restart_gather cfg) i s = restart_end cfg s"

text \<open>
  \<^verbatim>\<open>CancelledError\<close> thrown into a task at the \<^verbatim>\<open>await\<close> where it is suspended, or
  before it starts.  No coroutine catches it; the \<^verbatim>\<open>with\<close> block of \<^verbatim>\<open>_stream\<close> closes
  the playback device on the way out.
\<close>

definition throw_cancel :: "coro \<Rightarrow> sys \<Rightarrow> sys \<times> result" where
  "throw_cancel c s =
     (if c = Stream_sleep then (playback_exit s, Finish Cancelled) else (s, Finish Cancelled))"

definition runnable :: "sys \<Rightarrow> task \<Rightarrow> bool" where
  "runnable s t =
     (t_cancel t \<or>
      (case t_wait t of
         Ready \<Rightarrow> True
       | Until due \<Rightarrow> due \<le> now s
       | OnQueue \<Rightarrow> rxq s \<noteq> []
       | OnTasks ids \<Rightarrow> list_all (\<lambda>k. k \<notin> t_id ` set (tasks s)) ids))"

definition settle :: "nat \<Rightarrow> sys \<times> result \<Rightarrow> sys option" where
  "settle self r =
     (case r of
        (s, Blocked) \<Rightarrow> None
      | (s, Suspend c w) \<Rightarrow>
          Some (s\<lparr>tasks := map (\<lambda>t. if t_id t = self then t\<lparr>t_coro := c, t_wait := w\<rparr> else t)
                              (tasks s)\<rparr>)
      | (s, Finish out) \<Rightarrow>
          Some (s\<lparr>tasks := filter (\<lambda>t. t_id t \<noteq> self) (tasks s),
                  finished := finished s @ [(self, out)]\<rparr>))"

text \<open>
  What happens on the loop, one event at a time: a command is put on the queue from
  outside; time passes; a due \<^verbatim>\<open>call_later\<close> handle fires and makes its coroutine a
  task; a task that can run runs; the shutdown or the restart signal makes \<^verbatim>\<open>_shutdown\<close>
  or \<^verbatim>\<open>_restart\<close> a task.  \<open>None\<close>: the event cannot happen in this state.  A stopped
  loop runs nothing.
\<close>

datatype event =
    EvCommand PlayerCommand
  | EvAdvance rat
  | EvTimer nat
  | EvRun nat io
  | EvShutdown
  | EvRestart ProbeConfig

fun step :: "event \<Rightarrow> sys \<Rightarrow> sys option" where
  "step (EvCommand cmd) s =
     (if stopped s then None else Some (s\<lparr>rxq := rxq s @ [cmd]\<rparr>))"
| "step (EvAdvance d) s =
     (if stopped s \<or> d < 0 then None else Some (s\<lparr>now := now s + d\<rparr>))"
| "step (EvTimer k) s =
     (if stopped s \<or> k \<ge> length (timers s) \<or> now s < fst (timers s ! k) then None
      else Some (create_task (snd (timers s ! k))
                   (s\<lparr>timers := take k (timers s) @ drop (Suc k) (timers s)\<rparr>)))"
| "step (EvRun tid i) s =
     (if stopped s then None
      else
       (case find (\<lambda>t. t_id t = tid) (tasks s) of
          None \<Rightarrow> None
        | Some t \<Rightarrow>
           if \<not> runnable s t then None
           else if t_cancel t then settle tid (throw_cancel (t_coro t) s)
           else settle tid (resume tid (t_coro t) i s)))"
| "step EvShutdown s = (if stopped s then None else Some (create_task Shutdown_new s))"
| "step (EvRestart cfg) s = (if stopped s then None else Some (create_task (Restart_new cfg) s))"

fun run_events :: "event list \<Rightarrow> sys \<Rightarrow> sys option" where
  "run_events [] s = Some s"
| "run_events (e # es) s = (case step e s of None \<Rightarrow> None | Some s' \<Rightarrow> run_events es s')"

subsection \<open>Runs\<close>

text \<open>The controller's state after each event of a run.\<close>

fun trace :: "event list \<Rightarrow> sys \<Rightarrow> PlayerState list option" where
  "trace [] s = Some []"
| "trace (e # es) s =
     (case step e s of
        None \<Rightarrow> None
      | Some s' \<Rightarrow> map_option (\<lambda>sts. local_state s' # sts) (trace es s'))"

text \<open>A capture buffer that the probe of the controller classifies as above the high
  bound, and one that it classifies as below the low bound.\<close>

definition above_high :: "sys \<Rightarrow> bytes \<Rightarrow> bool" where
  "above_high s b = (case sys_probe (s\<lparr>buffer := b\<rparr>) of Inl e \<Rightarrow> False | Inr r \<Rightarrow> snd r)"

definition below_low :: "sys \<Rightarrow> bytes \<Rightarrow> bool" where
  "below_low s b = (case sys_probe (s\<lparr>buffer := b\<rparr>) of Inl e \<Rightarrow> False | Inr r \<Rightarrow> fst r)"

text \<open>The device answers of a task's run: none; one period read from the capture device;
  the playback device opened, a first write, one period read and written.\<close>

definition no_io :: io where
  "no_io = \<lparr>io_reads = [], io_open = None, io_writes = []\<rparr>"

definition read_io :: "bytes \<Rightarrow> io" where
  "read_io b = \<lparr>io_reads = [Inr (int (length b), b)], io_open = None, io_writes = []\<rparr>"

definition stream_io :: "bytes \<Rightarrow> io" where
  "stream_io b =
     \<lparr>io_reads = [Inr (int (length b), b)], io_open = None, io_writes = [Inr 1024, Inr 1024]\<rparr>"

text \<open>
  A run of the controller, in phases.  The run task is task 0; the tasks made later are
  numbered in the order of their making.
  \<^item> \<open>run_first_play\<close>: \<^verbatim>\<open>run\<close> starts, puts \<^verbatim>\<open>PLAY\<close> on its queue and dispatches it.
  \<^item> \<open>run_detect\<close>: the idle handler starts after the idle interval and probes three
    periods \<open>b1\<close>, \<open>b2\<close>, \<open>b3\<close>.
  \<^item> \<open>run_stream\<close>: the stream handler starts and reads \<open>q1\<close>; after the stream
    interval the idle handler starts the monitor and ends.
  \<^item> \<open>run_monitor\<close>: five monitor cycles, the stream handler reading \<open>q2\<close> to \<open>q5\<close>
    in between.
  \<^item> \<open>run_resume_idle\<close>: the stream handler ends; after the idle interval the monitor
    starts a new idle handler and ends.
  \<^item> \<open>run_detect_again\<close>: the new idle handler probes \<open>b4\<close>, \<open>b5\<close>, \<open>b6\<close>, and a new
    stream handler starts and reads \<open>b7\<close>.
  \<^item> \<open>run_stop\<close>: a \<^verbatim>\<open>STOP\<close> command arrives; \<^verbatim>\<open>run\<close> cancels the two handlers, waits
    for them and dispatches the command.
  \<^item> \<open>run_wake\<close>: after the hibernate interval the wake handler runs.
  \<^item> \<open>run_shutdown\<close>: the shutdown signal arrives; \<^verbatim>\<open>_shutdown\<close> cancels the other tasks,
    waits for them and stops the loop.
\<close>

definition run_first_play :: "event list" where
  "run_first_play = [EvRun 0 no_io]"

definition run_detect :: "ProbeConfig \<Rightarrow> bytes \<Rightarrow> bytes \<Rightarrow> bytes \<Rightarrow> event list" where
  "run_detect pc b1 b2 b3 =
     [EvAdvance (idle_interval pc), EvTimer 0, EvRun 1 (read_io b1),
      EvAdvance (follow_interval pc), EvRun 1 (read_io b2),
      EvAdvance (follow_interval pc), EvRun 1 (read_io b3)]"

definition run_stream :: "ProbeConfig \<Rightarrow> bytes \<Rightarrow> event list" where
  "run_stream pc q1 = [EvRun 2 (stream_io q1), EvAdvance (stream_interval pc), EvRun 1 no_io]"

definition run_monitor :: "ProbeConfig \<Rightarrow> bytes \<Rightarrow> bytes \<Rightarrow> bytes \<Rightarrow> bytes \<Rightarrow> event list" where
  "run_monitor pc q2 q3 q4 q5 =
     [EvRun 3 no_io,
      EvAdvance (follow_interval pc), EvAdvance (1 / 1000), EvRun 2 (stream_io q2), EvRun 3 no_io,
      EvAdvance (follow_interval pc), EvAdvance (1 / 1000), EvRun 2 (stream_io q3), EvRun 3 no_io,
      EvAdvance (follow_interval pc), EvAdvance (1 / 1000), EvRun 2 (stream_io q4), EvRun 3 no_io,
      EvAdvance (follow_interval pc), EvAdvance (1 / 1000), EvRun 2 (stream_io q5), EvRun 3 no_io]"

definition run_resume_idle :: "ProbeConfig \<Rightarrow> event list" where
  "run_resume_idle pc =
     [EvAdvance (1 / 1000), EvRun 2 no_io, EvAdvance (idle_interval pc), EvRun 3 no_io]"

definition run_detect_again :: "ProbeConfig \<Rightarrow> bytes \<Rightarrow> bytes \<Rightarrow> bytes \<Rightarrow> bytes \<Rightarrow> event list" where
  "run_detect_again pc b4 b5 b6 b7 =
     [EvRun 4 (read_io b4),
      EvAdvance (follow_interval pc), EvRun 4 (read_io b5),
      EvAdvance (follow_interval pc), EvRun 4 (read_io b6),
      EvRun 5 (stream_io b7)]"

definition run_stop :: "event list" where
  "run_stop = [EvCommand Cmd_STOP, EvRun 0 no_io, EvRun 4 no_io, EvRun 5 no_io, EvRun 0 no_io]"

definition run_wake :: "ProbeConfig \<Rightarrow> event list" where
  "run_wake pc = [EvAdvance (hybernate_interval pc), EvTimer 0, EvRun 6 no_io]"

definition run_shutdown :: "event list" where
  "run_shutdown = [EvShutdown, EvRun 8 no_io, EvRun 0 no_io, EvRun 7 no_io, EvRun 8 no_io]"

text \<open>
  The shutdown signal in any state of the loop: \<^verbatim>\<open>_shutdown\<close> becomes a task and runs,
  each of the other tasks runs into its cancellation, and \<^verbatim>\<open>_shutdown\<close> runs on.
\<close>

definition shutdown_events :: "sys \<Rightarrow> event list" where
  "shutdown_events s =
     EvShutdown # EvRun (next_id s) no_io #
       (if tasks s = [] then []
        else map (\<lambda>t. EvRun (t_id t) no_io) (tasks s) @ [EvRun (next_id s) no_io])"

text \<open>
  Concrete inputs for the runs: a probe configuration with a sensitivity of -10 dB, and
  two periods of one 16-bit stereo frame each, one with both samples at 20000 and a
  silent one.
\<close>

definition pc_demo :: ProbeConfig where
  "pc_demo =
     \<lparr>sensitivity = -10, sample_size = 40, start_count = 3, stop_count = 5,
      idle_interval = 1 / 4, follow_interval = 1 / 10, stream_interval = 1,
      hybernate_interval = 5\<rparr>"

definition loud :: bytes where
  "loud = [0x20, 0x4E, 0x20, 0x4E]"

definition quiet :: bytes where
  "quiet = [0x00, 0x00, 0x00, 0x00]"

definition sys_demo :: sys where
  "sys_demo = init_sys cfg_s16le cfg_s16le pc_demo False"

subsection \<open>The try statement of _stream, and a state in which a stream handler is due\<close>

text \<open>The body of the \<^verbatim>\<open>try\<close> statement of \<^verbatim>\<open>_stream\<close>, as a task at \<open>c\<close> runs it.\<close>

definition stream_try :: "coro \<Rightarrow> io \<Rightarrow> sys \<Rightarrow> sys \<times> (exn + result)" where
  "stream_try c i s =
     (if c = Stream_new then stream_begin i (info ''start redirecting'' s)
      else stream_loop i (io_writes i) s)"

text \<open>
  The state of the demo controller once the third loud period has been probed: it plays,
  the idle handler (task 1) sleeps before it starts the monitor, and the stream
  handler (task 2) is about to start.
\<close>

definition sys_playing :: sys where
  "sys_playing =
     \<lparr>rxq = [], capture_cfg = cfg_s16le, playback_cfg = cfg_s16le, probe_cfg = pc_demo,
      threscomp = probe_setter 32768 (-10),
      local_state = PLAY, buffer = loud,
      tasks = [\<lparr>t_id = 0, t_coro = Run_get, t_wait = OnQueue, t_cancel = False\<rparr>,
               \<lparr>t_id = 1, t_coro = Idle_sleep_play 3, t_wait = Until (29 / 20), t_cancel = False\<rparr>,
               \<lparr>t_id = 2, t_coro = Stream_new, t_wait = Ready, t_cancel = False\<rparr>],
      timers = [], finished = [], next_id = 3, now = 9 / 20, stopped = False,
      capture_open = True, playback_open = 0,
      logged = [''Cancelling outstanding tasks'', ''Received command. Dispatching''],
      host_order_be = False, loop_set = True\<rparr>"

text \<open>The playback device cannot be opened.\<close>

definition open_fails :: io where
  "open_fails = \<lparr>io_reads = [], io_open = Some ALSAAudioError, io_writes = []\<rparr>"

section \<open>The stream handler of usbloop.py\<close>

text \<open>
  A \<^verbatim>\<open>with\<close> statement over a state: \<open>enter\<close> is \<^verbatim>\<open>__enter__\<close>, which may raise;
  \<open>exit\<close> is \<^verbatim>\<open>__exit__\<close>, given the exception of the body if there is one, and returns
  whether to suppress it; the body gives the exception it raises, if any, or \<open>None\<close>
  when it does not return.  The result is the exception that leaves the statement, if
  any.
\<close>

definition py_with ::
  "('s \<Rightarrow> exn + 's) \<Rightarrow> (exn option \<Rightarrow> 's \<Rightarrow> bool \<times> 's) \<Rightarrow> ('s \<Rightarrow> ('s \<times> exn option) option)
     \<Rightarrow> 's \<Rightarrow> ('s \<times> exn option) option" where
  "py_with enter exit body s =
     (case enter s of
        Inl e \<Rightarrow> Some (s, Some e)
      | Inr s1 \<Rightarrow>
         (case body s1 of
            None \<Rightarrow> None
          | Some (s2, None) \<Rightarrow> Some (snd (exit None s2), None)
          | Some (s2, Some e) \<Rightarrow>
              (case exit (Some e) s2 of
                 (True, s3) \<Rightarrow> Some (s3, None)
               | (False, s3) \<Rightarrow> Some (s3, Some e))))"

text \<open>The fields of \<^verbatim>\<open>FSM\<close> that \<^verbatim>\<open>stream\<close> touches, the number of open playback devices
  and the log.\<close>

record usb_fsm =
  usb_counter :: int
  usb_is_streaming :: bool
  usb_buffer :: bytes
  usb_playback_open :: nat
  usb_logged :: "string list"

text \<open>
  \<^verbatim>\<open>AlsaDevice.__enter__\<close> opens the device; \<^verbatim>\<open>AlsaDevice.__exit__\<close> of usbloop.py
  closes it and returns \<^verbatim>\<open>True\<close>.
\<close>

definition usb_enter :: "io \<Rightarrow> usb_fsm \<Rightarrow> exn + usb_fsm" where
  "usb_enter i s =
     (case io_open i of
        Some e \<Rightarrow> Inl e
      | None \<Rightarrow> Inr (s\<lparr>usb_playback_open := usb_playback_open s + 1\<rparr>))"

definition usb_exit :: "exn option \<Rightarrow> usb_fsm \<Rightarrow> bool \<times> usb_fsm" where
  "usb_exit exc s = (True, s\<lparr>usb_playback_open := usb_playback_open s - 1\<rparr>)"

text \<open>
  The body of the \<^verbatim>\<open>with\<close> block of \<^verbatim>\<open>FSM.stream\<close>.  Its first statement is
  \<^verbatim>\<open>await playback.write(self.buffer)\<close>: \<^verbatim>\<open>write\<close> is a plain method, and awaiting the
  int that it returns raises \<open>TypeError\<close>; the statements after it are not reached.
\<close>

definition usb_stream_body :: "io \<Rightarrow> usb_fsm \<Rightarrow> (usb_fsm \<times> exn option) option" where
  "usb_stream_body i s =
     (case PlaybackDevice_write (io_writes i) of
        None \<Rightarrow> None
      | Some (Inl e, _) \<Rightarrow> Some (s, Some e)
      | Some (Inr written, _) \<Rightarrow> Some (s, Some TypeError))"

definition usb_info :: "string \<Rightarrow> usb_fsm \<Rightarrow> usb_fsm" where
  "usb_info msg s = s\<lparr>usb_logged := usb_logged s @ [msg]\<rparr>"

text \<open>\<^verbatim>\<open>FSM.stream\<close>: the exception that leaves the coroutine, if any.\<close>

definition usb_stream :: "io \<Rightarrow> usb_fsm \<Rightarrow> (usb_fsm \<times> exn option) option" where
  "usb_stream i s =
     (case py_with (usb_enter i) usb_exit (usb_stream_body i) (usb_info ''start looping'' s) of
        None \<Rightarrow> None
      | Some (s', Some e) \<Rightarrow> Some (s', Some e)
      | Some (s', None) \<Rightarrow> Some (usb_info ''close playback'' s', None))"

definition usb_demo :: usb_fsm where
  "usb_demo =
     \<lparr>usb_counter = 0, usb_is_streaming = True, usb_buffer = loud, usb_playback_open = 0,
      usb_logged = []\<rparr>"

text \<open>The playback device opens, and its first write fails.\<close>

definition write_fails :: io where
  "write_fails = \<lparr>io_reads = [], io_open = None, io_writes = [Inl ALSAAudioError]\<rparr>"

section \<open>Properties of the sample decoder\<close>

subsection \<open>Reading one frame\<close>

lemma padding_full:
  assumes "supported cfg" "length x = nat (cfg_size cfg)"
  shows "\<exists>y. padding cfg x = Inr y \<and> length y = pad_len cfg"
  using assms
  by (auto simp: supported_def padding_def padding_t_def pad_len_def sign_byte_def)

lemma padding_short:
  assumes "supported cfg" "length x < nat (cfg_size cfg)"
  shows "padding cfg x = Inl IndexError \<or> (\<exists>y. padding cfg x = Inr y \<and> length y < pad_len cfg)"
  using assms
  by (auto simp: supported_def padding_def padding_t_def pad_len_def sign_byte_def)

lemma padding_le:
  assumes "supported cfg" "length x \<le> nat (cfg_size cfg)" "padding cfg x = Inr y"
  shows "length y \<le> pad_len cfg"
  using assms
  by (auto simp: supported_def padding_def padding_t_def pad_len_def sign_byte_def split: if_splits)

lemma bio_read_len:
  "0 \<le> n \<Longrightarrow> length (bio_read data pos n) = min (nat n) (length data - pos)"
  by (simp add: bio_read_def)

lemma read_chunk_enough:
  assumes "supported cfg" "pos + n * nat (cfg_size cfg) \<le> length data"
  shows "\<exists>ys. read_chunk cfg n data pos chunk = (Inr (chunk @ ys), pos + n * nat (cfg_size cfg))
           \<and> length ys = n * pad_len cfg"
  using assms
proof (induction n arbitrary: pos chunk)
  case 0
  then show ?case by simp
next
  case (Suc n)
  let ?s = "nat (cfg_size cfg)"
  let ?x = "bio_read data pos (cfg_size cfg)"
  have sz: "0 \<le> cfg_size cfg" using Suc.prems(1) by (auto simp: supported_def)
  have lx: "length ?x = ?s" using Suc.prems(2) sz by (simp add: bio_read_len)
  obtain y where y: "padding cfg ?x = Inr y" "length y = pad_len cfg"
    using padding_full [OF Suc.prems(1) lx] by blast
  have "pos + ?s + n * ?s \<le> length data" using Suc.prems(2) by simp
  from Suc.IH [OF Suc.prems(1) this, of "chunk @ y"]
  obtain ys where ys: "read_chunk cfg n data (pos + ?s) (chunk @ y) = (Inr ((chunk @ y) @ ys), pos + ?s + n * ?s)"
     "length ys = n * pad_len cfg" by blast
  show ?case
    apply (rule exI [of _ "y @ ys"])
    using y ys lx by (simp add: Let_def)
qed

lemma read_chunk_upper:
  assumes "supported cfg" "fst (read_chunk cfg n data pos chunk) = Inr c"
  shows "length c \<le> length chunk + n * pad_len cfg"
  using assms
proof (induction n arbitrary: pos chunk)
  case 0
  then show ?case by simp
next
  case (Suc n)
  let ?x = "bio_read data pos (cfg_size cfg)"
  have sz: "0 \<le> cfg_size cfg" using Suc.prems(1) by (auto simp: supported_def)
  have lx: "length ?x \<le> nat (cfg_size cfg)" using sz by (simp add: bio_read_len)
  show ?case
  proof (cases "padding cfg ?x")
    case (Inl e)
    then show ?thesis using Suc.prems(2) by (simp add: Let_def)
  next
    case (Inr y)
    have ly: "length y \<le> pad_len cfg" using padding_le [OF Suc.prems(1) lx Inr] .
    have "fst (read_chunk cfg n data (pos + length ?x) (chunk @ y)) = Inr c"
      using Suc.prems(2) Inr by (simp add: Let_def)
    from Suc.IH [OF Suc.prems(1) this] ly show ?thesis by simp
  qed
qed

lemma read_chunk_short:
  assumes "supported cfg" "length data < pos + n * nat (cfg_size cfg)" "pos \<le> length data"
  shows "(\<exists>e. fst (read_chunk cfg n data pos chunk) = Inl e)
       \<or> (\<exists>c. fst (read_chunk cfg n data pos chunk) = Inr c \<and> length c < length chunk + n * pad_len cfg)"
  using assms
proof (induction n arbitrary: pos chunk)
  case 0
  then show ?case by simp
next
  case (Suc n)
  let ?s = "nat (cfg_size cfg)"
  let ?x = "bio_read data pos (cfg_size cfg)"
  have sz: "0 \<le> cfg_size cfg" using Suc.prems(1) by (auto simp: supported_def)
  have lx: "length ?x = min ?s (length data - pos)" using sz by (simp add: bio_read_len)
  show ?case
  proof (cases "length ?x = ?s")
    case True
    obtain y where y: "padding cfg ?x = Inr y" "length y = pad_len cfg"
      using padding_full [OF Suc.prems(1) True] by blast
    have 1: "length data < pos + ?s + n * ?s" using Suc.prems(2) by simp
    have "0 < ?s" using Suc.prems(1) by (auto simp: supported_def)
    then have 2: "pos + ?s \<le> length data" using True lx Suc.prems(3) by linarith
    from Suc.IH [OF Suc.prems(1) 1 2, of "chunk @ y"] y True
    show ?thesis by (auto simp: Let_def)
  next
    case False
    then have short: "length ?x < ?s" using lx by simp
    from padding_short [OF Suc.prems(1) short]
    show ?thesis
    proof
      assume "padding cfg ?x = Inl IndexError"
      then show ?thesis by (simp add: Let_def)
    next
      assume "\<exists>y. padding cfg ?x = Inr y \<and> length y < pad_len cfg"
      then obtain y where y: "padding cfg ?x = Inr y" "length y < pad_len cfg" by blast
      show ?thesis
      proof (cases "fst (read_chunk cfg n data (pos + length ?x) (chunk @ y))")
        case (Inl e)
        then show ?thesis using y by (simp add: Let_def)
      next
        case (Inr c)
        from read_chunk_upper [OF Suc.prems(1) Inr] y Inr
        show ?thesis by (simp add: Let_def)
      qed
    qed
  qed
qed


lemma length_unpack_items: "length (unpack_items big cs bs) = length cs"
  by (induction cs arbitrary: bs) auto

lemma struct_str_supported:
  assumes "supported cfg"
  shows "\<exists>f. struct_str cfg = Inr f \<and> calcsize f = nat (cfg_channels cfg) * pad_len cfg
           \<and> length (fmt_codes f) = nat (cfg_channels cfg)"
proof -
  obtain m where m: "endian_t (cfg_endian cfg) = Some m" "m = ''<'' \<or> m = ''>''"
    using assms by (auto simp: supported_def endian_t_def)
  obtain c where c: "struct_t (cfg_signed cfg, cfg_size cfg) = Some c" "item_size c = pad_len cfg"
       "c \<noteq> CHR ''<''" "c \<noteq> CHR ''>''"
    using assms by (cases "cfg_signed cfg") (auto simp: supported_def struct_t_def pad_len_def item_size_def)
  have codes: "fmt_codes (m @ replicate (nat (cfg_channels cfg)) c) = replicate (nat (cfg_channels cfg)) c"
    using m(2) by (auto simp: fmt_codes_def)
  have "sum_list (map item_size (replicate n c)) = n * pad_len cfg" for n
    using c(2) by (induction n) auto
  then show ?thesis using m c codes by (simp add: struct_str_def calcsize_def)
qed

lemma MemScope_next_enough:
  assumes "supported cfg" "ms_cfg ms = cfg" "struct_str cfg = Inr (ms_struct ms)"
    and "ms_pos ms + nat (cfg_channels cfg) * nat (cfg_size cfg) \<le> length (ms_data ms)"
  shows "\<exists>frame. MemScope_next host_be ms =
            (Some frame, ms\<lparr>ms_pos := ms_pos ms + nat (cfg_channels cfg) * nat (cfg_size cfg)\<rparr>)
          \<and> length frame = nat (cfg_channels cfg)"
proof -
  obtain f where f: "struct_str cfg = Inr f" "calcsize f = nat (cfg_channels cfg) * pad_len cfg"
      "length (fmt_codes f) = nat (cfg_channels cfg)"
    using struct_str_supported [OF assms(1)] by blast
  then have ff: "ms_struct ms = f" using assms(3) by simp
  obtain ys where ys: "read_chunk cfg (nat (cfg_channels cfg)) (ms_data ms) (ms_pos ms) [] =
       (Inr ([] @ ys), ms_pos ms + nat (cfg_channels cfg) * nat (cfg_size cfg))"
       "length ys = nat (cfg_channels cfg) * pad_len cfg"
    using read_chunk_enough [OF assms(1) assms(4), of "[]"] by blast
  show ?thesis
    using ys f ff assms(2)
    by (simp add: MemScope_next_def Let_def struct_unpack_def length_unpack_items)
qed

lemma MemScope_next_short:
  assumes "supported cfg" "ms_cfg ms = cfg" "struct_str cfg = Inr (ms_struct ms)"
    and "length (ms_data ms) < ms_pos ms + nat (cfg_channels cfg) * nat (cfg_size cfg)"
    and "ms_pos ms \<le> length (ms_data ms)"
  shows "fst (MemScope_next host_be ms) = None"
proof -
  obtain f where f: "struct_str cfg = Inr f" "calcsize f = nat (cfg_channels cfg) * pad_len cfg"
    using struct_str_supported [OF assms(1)] by blast
  then have ff: "ms_struct ms = f" using assms(3) by simp
  from read_chunk_short [OF assms(1) assms(4) assms(5), of "[]"]
  show ?thesis
    using f ff assms(2)
    by (auto simp: MemScope_next_def Let_def struct_unpack_def)
qed

lemma ms_collect_count:
  assumes "supported cfg" "ms_cfg ms = cfg" "struct_str cfg = Inr (ms_struct ms)"
    and "length (ms_data ms) = ms_pos ms + k * (nat (cfg_channels cfg) * nat (cfg_size cfg)) + e"
    and "e < nat (cfg_channels cfg) * nat (cfg_size cfg)"
  shows "\<exists>frames. ms_collect host_be ms = Some frames \<and> length frames = k
           \<and> (\<forall>fr \<in> set frames. length fr = nat (cfg_channels cfg))"
  using assms(2-4)
proof (induction k arbitrary: ms)
  case 0
  have "fst (MemScope_next host_be ms) = None"
    using MemScope_next_short [OF assms(1) "0.prems"(1) "0.prems"(2)] "0.prems"(3) assms(5) by simp
  then show ?case by (subst ms_collect.simps) simp
next
  case (Suc k)
  let ?F = "nat (cfg_channels cfg) * nat (cfg_size cfg)"
  let ?ms' = "ms\<lparr>ms_pos := ms_pos ms + ?F\<rparr>"
  have "ms_pos ms + ?F \<le> length (ms_data ms)" using Suc.prems(3) by simp
  from MemScope_next_enough [OF assms(1) Suc.prems(1) Suc.prems(2) this, of host_be]
  obtain frame where fr: "MemScope_next host_be ms = (Some frame, ?ms')"
     "length frame = nat (cfg_channels cfg)" by blast
  have "\<exists>frames. ms_collect host_be ?ms' = Some frames \<and> length frames = k
           \<and> (\<forall>fr \<in> set frames. length fr = nat (cfg_channels cfg))"
    by (rule Suc.IH) (use Suc.prems in simp_all)
  then obtain frames where frs: "ms_collect host_be ?ms' = Some frames" "length frames = k"
      "\<forall>fr \<in> set frames. length fr = nat (cfg_channels cfg)" by blast
  show ?case
    by (subst ms_collect.simps) (use fr frs in simp)
qed

lemma decode_count:
  assumes "cfg_size cfg \<in> {1, 2, 3, 4}"
    and "cfg_endian cfg = Some ''LE'' \<or> cfg_endian cfg = Some ''BE''"
    and "1 \<le> cfg_channels cfg"
    and "int (length data) = int k * (cfg_channels cfg * cfg_size cfg) + int e"
    and "int e < cfg_channels cfg * cfg_size cfg"
  shows "\<exists>frames. decode_all host_be data cfg = Inr (Some frames) \<and> length frames = k
           \<and> (\<forall>fr \<in> set frames. int (length fr) = cfg_channels cfg)"
proof -
  have sup: "supported cfg" using assms(1,2) by (auto simp: supported_def)
  obtain f where f: "struct_str cfg = Inr f" using struct_str_supported [OF sup] by blast
  let ?ms = "MemScope_iter \<lparr>ms_cfg = cfg, ms_data = data, ms_pos = 0, ms_struct = f\<rparr>"
  define N where "N = nat (cfg_channels cfg) * nat (cfg_size cfg)"
  have F: "int N = cfg_channels cfg * cfg_size cfg"
    using assms(1,3) by (auto simp: N_def)
  have "int (length data) = int (k * N + e)" using assms(4) F by simp
  then have "length data = k * N + e" by (simp only: of_nat_eq_iff)
  then have 1: "length (ms_data ?ms) = ms_pos ?ms + k * (nat (cfg_channels cfg) * nat (cfg_size cfg)) + e"
    by (simp add: MemScope_iter_def N_def)
  have 2: "e < nat (cfg_channels cfg) * nat (cfg_size cfg)" using assms(5) F unfolding N_def by linarith
  from ms_collect_count [OF sup _ _ 1 2, of host_be] f
  obtain frames where "ms_collect host_be ?ms = Some frames" "length frames = k"
     "\<forall>fr \<in> set frames. length fr = nat (cfg_channels cfg)" by (auto simp: MemScope_iter_def)
  then show ?thesis using f assms(3) by (auto simp: decode_all_def MemScope_init_def)
qed

section \<open>Properties of the format descriptor\<close>

lemma cfg_u8_init:
  "AlsaDeviceConfig_init ''default'' ''PCM_FORMAT_U8'' 2 48000 1024 = Inr (cfg_u8, [])"
  unfolding cfg_u8_def by code_simp

lemma cfg_u24be_init:
  "AlsaDeviceConfig_init ''default'' ''PCM_FORMAT_U24_BE'' 1 48000 1024 = Inr (cfg_u24be, [])"
  unfolding cfg_u24be_def by code_simp

lemma cfg_s24le_init:
  "AlsaDeviceConfig_init ''default'' ''PCM_FORMAT_S24_LE'' 2 48000 1024 = Inr (cfg_s24le, [])"
  unfolding cfg_s24le_def by code_simp

lemma cfg_s16le_init:
  "AlsaDeviceConfig_init ''default'' ''PCM_FORMAT_S16_LE'' 2 48000 1024 = Inr (cfg_s16le, [])"
  unfolding cfg_s16le_def by code_simp

lemma fallback_raises:
  assumes "fmt_matcher s = None"
  shows "AlsaDeviceConfig_init n s c r p = Inl (if r = 0 then ZeroDivisionError else UnboundLocalError)"
    and "StreamMeta_init s c r p = Inl AttributeError"
  using assms by (simp_all add: AlsaDeviceConfig_init_def alsa_parse_def StreamMeta_init_def)

text \<open>
  Claim C4 (a format identifier outside the grammar falls back to the default with a
  warning and never raises).  At \<^verbatim>\<open>'PCM_FORMAT_FLOAT_LE'\<close>, which the grammar does not
  match, \<open>AlsaDeviceConfig_init\<close> takes the fallback branch and then raises
  \<open>UnboundLocalError\<close> at \<^verbatim>\<open>1 << int(bits) - 1\<close>, and \<open>StreamMeta_init\<close> raises
  \<open>AttributeError\<close> at \<^verbatim>\<open>res.groups()\<close>.
\<close>
theorem C4_fallback_raises:
  "fmt_matcher ''PCM_FORMAT_FLOAT_LE'' = None
   \<and> AlsaDeviceConfig_init ''default'' ''PCM_FORMAT_FLOAT_LE'' 2 48000 1024 = Inl UnboundLocalError
   \<and> StreamMeta_init ''PCM_FORMAT_FLOAT_LE'' 2 48000 1024 = Inl AttributeError"
  by code_simp

text \<open>
  Claim C7, as stated (\<^verbatim>\<open>'PCM_FORMAT_S24_3LE'\<close> matches the grammar with digits 24): it
  does not match, since after the digits and the underscore only \<^verbatim>\<open>LE\<close>, \<^verbatim>\<open>BE\<close> or
  the end may follow.
\<close>
theorem C7_s24_3le_no_match:
  "fmt_matcher ''PCM_FORMAT_S24_3LE'' = None
   \<and> AlsaDeviceConfig_init ''default'' ''PCM_FORMAT_S24_3LE'' 2 48000 1024 = Inl UnboundLocalError"
  by code_simp

text \<open>
  Claim C7, amended: \<^verbatim>\<open>'PCM_FORMAT_S24_3LE'\<close> is not matched by the grammar; the
  identifier \<^verbatim>\<open>'PCM_FORMAT_S24_LE'\<close> is, with digits 24, and gives a sample size of
  3 bytes, signed, little-endian, with no warning and no error.
\<close>
theorem C7_s24_le_matches:
  "fmt_matcher ''PCM_FORMAT_S24_3LE'' = None
   \<and> fmt_matcher ''PCM_FORMAT_S24_LE'' = Some (Some ''S'', Some ''24'', Some ''LE'')
   \<and> AlsaDeviceConfig_init ''default'' ''PCM_FORMAT_S24_LE'' 2 48000 1024 = Inr (cfg_s24le, [])
   \<and> cfg_size cfg_s24le = 3 \<and> cfg_signed cfg_s24le \<and> cfg_endian cfg_s24le = Some ''LE''"
  unfolding cfg_s24le_def by code_simp

text \<open>
  Claim C5 (a 3-byte unsigned field is zero-extended, in front for big-endian).  For the
  unsigned big-endian format the byte put in front is \<open>0xFF\<close>: the field
  \<open>01 02 03\<close> decodes to \<open>0xFF010203\<close> and not to \<open>0x010203\<close>.
\<close>
theorem C5_unsigned_be_pads_ff:
  "padding cfg_u24be [0x01, 0x02, 0x03] = Inr [0xFF, 0x01, 0x02, 0x03]
   \<and> decode_all False [0x01, 0x02, 0x03] cfg_u24be = Inr (Some [[PyInt 0xFF010203]])"
  unfolding cfg_u24be_def by code_simp

text \<open>
  Claim C9 (every decoded frame holds integers, so that the probe statistic is
  well-defined).  For the unsigned 8-bit format the table gives the code \<^verbatim>\<open>c\<close>, the frame
  holds bytes objects, and the probe raises \<open>TypeError\<close> on the subtraction.
\<close>
theorem C9_u8_frames_hold_bytes:
  "decode_all False [0x80, 0x81] cfg_u8 = Inr (Some [[PyBytes [0x80], PyBytes [0x81]]])
   \<and> probe False \<lparr>hc_low = 1, hc_high = 2\<rparr> cfg_u8 40 [0x80, 0x81] = Inl TypeError"
  unfolding cfg_u8_def by code_simp

text \<open>
  Claim C6: for each of the eight (signed, size) pairs, both byte orders and at least one
  channel, a buffer of \<open>k\<close> full frames followed by \<open>e\<close> bytes, \<open>e\<close> less than a
  frame (so in particular none, or 1 to size - 1 bytes), decodes to exactly \<open>k\<close> frames:
  the iteration ends, and without an error.
\<close>
theorem C6_frame_count:
  assumes "(cfg_signed cfg, cfg_size cfg) \<in>
             {(True, 1), (False, 1), (True, 2), (False, 2), (True, 3), (False, 3), (True, 4), (False, 4)}"
    and "cfg_endian cfg = Some ''LE'' \<or> cfg_endian cfg = Some ''BE''"
    and "1 \<le> cfg_channels cfg"
    and "int (length data) = int k * (cfg_channels cfg * cfg_size cfg) + int e"
    and "int e < cfg_channels cfg * cfg_size cfg"
  shows "\<exists>frames. decode_all host_be data cfg = Inr (Some frames) \<and> length frames = k"
proof -
  have "cfg_size cfg \<in> {1, 2, 3, 4}" using assms(1) by auto
  from decode_count [OF this assms(2-5)] show ?thesis by blast
qed

text \<open>The theorem at two frames of the signed 24-bit format and two more bytes.\<close>
theorem C6_frame_count_witness:
  "(cfg_signed cfg_s24le, cfg_size cfg_s24le) \<in>
      {(True, 1), (False, 1), (True, 2), (False, 2), (True, 3), (False, 3), (True, 4), (False, 4)}
   \<and> (cfg_endian cfg_s24le = Some ''LE'' \<or> cfg_endian cfg_s24le = Some ''BE'')
   \<and> 1 \<le> cfg_channels cfg_s24le
   \<and> int (length [1, 2, 3, 4, 5, 0x86, 7, 8, 9, 10, 11, 12, 13, 14 :: byte])
        = int 2 * (cfg_channels cfg_s24le * cfg_size cfg_s24le) + int 2
   \<and> int 2 < cfg_channels cfg_s24le * cfg_size cfg_s24le
   \<and> (\<exists>frames. decode_all False [1, 2, 3, 4, 5, 0x86, 7, 8, 9, 10, 11, 12, 13, 14] cfg_s24le
                  = Inr (Some frames) \<and> length frames = 2)"
  using C6_frame_count [of cfg_s24le "[1, 2, 3, 4, 5, 0x86, 7, 8, 9, 10, 11, 12, 13, 14]" 2 2 False]
  by (simp add: cfg_s24le_def)

section \<open>Properties of the threshold engine\<close>

lemma reverse_db_ratio:
  assumes "0 < maxamp"
  shows "reverse_db maxamp d / reverse_db maxamp (d - 3) = 10 powr (3 / 20)"
proof -
  have "10 powr (d / 20) / 10 powr ((d - 3) / 20) = (10::real) powr (d / 20 - (d - 3) / 20)"
    by (simp add: powr_diff)
  also have "d / 20 - (d - 3) / 20 = 3 / 20" by (simp add: field_simps)
  finally show ?thesis using assms by (simp add: reverse_db_def)
qed

lemma reverse_db_less:
  assumes "0 < maxamp"
  shows "reverse_db maxamp (d - 3) < reverse_db maxamp d"
  using assms by (simp add: reverse_db_def)

lemma reverse_db_10: "10362 < reverse_db 32768 (-10)" "reverse_db 32768 (-10) < 10363"
proof -
  have e: "(10::real) powr (-10/20) = 1 / sqrt 10"
    by (simp add: powr_minus powr_half_sqrt field_simps)
  have a: "sqrt 10 < 32768 / 10362" by (rule real_less_lsqrt) (simp_all add: power2_eq_square)
  have b: "32768 / 10363 < sqrt 10" by (rule real_less_rsqrt) (simp add: power2_eq_square)
  have p: "0 < sqrt (10::real)" by simp
  show "10362 < reverse_db 32768 (-10)" unfolding reverse_db_def e using a p by (simp add: field_simps)
  show "reverse_db 32768 (-10) < 10363" unfolding reverse_db_def e using b p by (simp add: field_simps)
qed

lemma reverse_db_13: "7335 < reverse_db 32768 (-13)" "reverse_db 32768 (-13) < 7336"
proof -
  let ?x = "reverse_db 32768 (-13)"
  have pos: "0 < ?x" by (simp add: reverse_db_def)
  have a: "((10::real) powr (-13/20)) ^ 20 = (10 powr (-13/20)) powr 20"
    by (rule powr_numeral [symmetric]) simp
  have b: "((10::real) powr (-13/20)) powr 20 = 10 powr ((-13/20) * 20)"
    by (rule powr_powr)
  have c: "(10::real) powr ((-13/20) * 20) = 1 / 10 powr 13"
    by (simp only: powr_minus_divide [symmetric]) simp
  have d: "(10::real) powr 13 = 10 ^ 13"
    by (rule powr_numeral) simp
  have "?x ^ 20 = 32768 ^ 20 * ((10::real) powr (-13/20)) ^ 20"
    by (simp only: reverse_db_def power_mult_distrib) simp
  then have p20: "?x ^ 20 = 32768 ^ 20 / 10 ^ 13"
    by (simp only: a b c d) simp
  have lo: "(7335::real) ^ 20 < ?x ^ 20" unfolding p20 by (simp add: field_simps)
  show "7335 < ?x" by (rule power_less_imp_less_base [OF lo]) (use pos in simp)
  have hi: "?x ^ 20 < (7336::real) ^ 20" unfolding p20 by (simp add: field_simps)
  show "?x < 7336" by (rule power_less_imp_less_base [OF hi]) simp
qed

lemma usb_thresholds_ordered:
  assumes "d \<le> 0" and "0 < maxamp"
  shows "th_stop (usb_thresholds maxamp d) < th_start (usb_thresholds maxamp d)"
  using assms by (simp add: usb_thresholds_def usb_reverse_db_def)

text \<open>
  For every nonzero sensitivity the probe setter of alsaloop.py gives a comparator whose
  high bound is below its low bound, by 3 dB.
\<close>

lemma probe_setter_inverted:
  assumes "s \<noteq> 0" and "0 < maxamp"
  shows "hc_high (probe_setter maxamp s) < hc_low (probe_setter maxamp s)"
    and "hc_low (probe_setter maxamp s) / hc_high (probe_setter maxamp s) = 10 powr (3 / 20)"
  using assms reverse_db_ratio [OF assms(2)] reverse_db_less [OF assms(2)]
  by (simp_all add: probe_setter_def Let_def)

text \<open>
  Claim C1 (for every nonzero sensitivity the high threshold exceeds the low one, by the
  ratio \<open>10 powr (3 / 20)\<close>; at 16 bits and -10 dB the low one is about 10362 and the
  high one about 14636).  At 16 bits and -10 dB the probe setter of alsaloop.py gives a
  low bound of about 10362 and a high bound of about 7336: the high bound is below the
  low one, their ratio is \<open>10 powr (- 3 / 20)\<close>, and a level of 9000 is both below low
  and above high.  usbloop.py, from the same two values, starts above the larger and
  stops below the smaller one.
\<close>

theorem C1_high_below_low:
  "hc_high (probe_setter 32768 (-10)) < hc_low (probe_setter 32768 (-10))
   \<and> hc_high (probe_setter 32768 (-10)) / hc_low (probe_setter 32768 (-10)) = 10 powr (- 3 / 20)
   \<and> \<bar>hc_low (probe_setter 32768 (-10)) - 10362\<bar> < 1
   \<and> \<bar>hc_high (probe_setter 32768 (-10)) - 7336\<bar> < 1
   \<and> comp (probe_setter 32768 (-10)) 9000 = (True, True)
   \<and> th_start (usb_thresholds 32768 (-10)) = hc_low (probe_setter 32768 (-10))
   \<and> th_stop (usb_thresholds 32768 (-10)) = hc_high (probe_setter 32768 (-10))"
proof -
  have lo: "hc_low (probe_setter 32768 (-10)) = reverse_db 32768 (-10)"
    and hi: "hc_high (probe_setter 32768 (-10)) = reverse_db 32768 (-13)"
    by (simp_all add: probe_setter_def)
  have r: "reverse_db 32768 (-13) / reverse_db 32768 (-10) = 10 powr (- 3 / 20)"
  proof -
    have "(10::real) powr (-13 / 20) / 10 powr (-10 / 20) = 10 powr (-13 / 20 - (-10 / 20))"
      by (simp only: powr_diff)
    also have "(-13 / 20 - (-10 / 20) :: real) = - 3 / 20" by simp
    finally show ?thesis by (simp add: reverse_db_def)
  qed
  have u: "th_start (usb_thresholds 32768 (-10)) = reverse_db 32768 (-10)"
      "th_stop (usb_thresholds 32768 (-10)) = reverse_db 32768 (-13)"
    by (simp_all add: usb_thresholds_def usb_reverse_db_def reverse_db_def)
  show ?thesis
    unfolding lo hi u comp_def HystComp.simps
    using reverse_db_10 reverse_db_13 r
    by (simp add: probe_setter_def)
qed

section \<open>Properties of the loop controller\<close>

subsection \<open>Runs and their traces\<close>

lemma stopped_no_step: "stopped s \<Longrightarrow> step e s = None"
  by (cases e) simp_all

lemma run_events_append:
  "run_events (es1 @ es2) s = (case run_events es1 s of None \<Rightarrow> None | Some s1 \<Rightarrow> run_events es2 s1)"
  by (induction es1 arbitrary: s) (auto split: option.splits)

lemma trace_append:
  assumes "run_events es1 s = Some s1" "trace es1 s = Some a" "trace es2 s1 = Some b"
  shows "trace (es1 @ es2) s = Some (a @ b)"
  using assms by (induction es1 arbitrary: s a) (auto split: option.splits)

lemma find_append_last:
  assumes "\<forall>t \<in> set ts. \<not> P t" "P x"
  shows "find P (ts @ [x]) = Some x"
  using assms by (induction ts) auto

lemma filter_others:
  assumes "\<forall>t \<in> set ts. t_id t \<noteq> n"
  shows "filter (\<lambda>t. t_id t \<noteq> n) ts = ts"
  using assms by (induction ts) auto

text \<open>
  Every task but the last has been asked to cancel: run one after the other, they end,
  and the controller's state stays as it is.
\<close>

lemma cancel_sweep:
  assumes "tasks s = ts @ [x]" "\<forall>t \<in> set ts. t_cancel t" "distinct (map t_id (ts @ [x]))"
    and "\<not> stopped s"
  shows "\<exists>s'. run_events (map (\<lambda>t. EvRun (t_id t) i) ts) s = Some s' \<and> tasks s' = [x]
            \<and> local_state s' = local_state s \<and> \<not> stopped s' \<and> loop_set s' = loop_set s
            \<and> trace (map (\<lambda>t. EvRun (t_id t) i) ts) s = Some (replicate (length ts) (local_state s))"
  using assms
proof (induction ts arbitrary: s)
  case Nil
  then show ?case by simp
next
  case (Cons t ts)
  let ?s1 = "fst (throw_cancel (t_coro t) s)"
  let ?s2 = "?s1\<lparr>tasks := filter (\<lambda>u. t_id u \<noteq> t_id t) (tasks ?s1),
                   finished := finished ?s1 @ [(t_id t, Cancelled)]\<rparr>"
  have tc: "throw_cancel (t_coro t) s = (?s1, Finish Cancelled)"
    by (simp add: throw_cancel_def)
  have t1: "tasks ?s1 = tasks s" "local_state ?s1 = local_state s" "stopped ?s1 = stopped s"
      "loop_set ?s1 = loop_set s"
    by (simp_all add: throw_cancel_def playback_exit_def)
  have fnd: "find (\<lambda>u. t_id u = t_id t) (tasks s) = Some t"
    using Cons.prems(1) by simp
  have run: "runnable s t" using Cons.prems(2) by (simp add: runnable_def)
  have canc: "t_cancel t" using Cons.prems(2) by simp
  have "settle (t_id t) (throw_cancel (t_coro t) s) = Some ?s2"
    by (subst tc) (simp add: settle_def)
  then have st: "step (EvRun (t_id t) i) s = Some ?s2"
    using Cons.prems(4) fnd run canc by simp
  have "\<forall>u \<in> set (ts @ [x]). t_id u \<noteq> t_id t" using Cons.prems(3) by (auto simp: image_iff)
  then have flt: "filter (\<lambda>u. t_id u \<noteq> t_id t) (ts @ [x]) = ts @ [x]"
    by (rule filter_others)
  have tasks2: "tasks ?s2 = ts @ [x]"
    using Cons.prems(1) t1(1) flt by simp
  have "\<exists>s'. run_events (map (\<lambda>t. EvRun (t_id t) i) ts) ?s2 = Some s' \<and> tasks s' = [x]
            \<and> local_state s' = local_state ?s2 \<and> \<not> stopped s' \<and> loop_set s' = loop_set ?s2
            \<and> trace (map (\<lambda>t. EvRun (t_id t) i) ts) ?s2 = Some (replicate (length ts) (local_state ?s2))"
  proof (rule Cons.IH [OF tasks2])
    show "\<forall>t\<in>set ts. t_cancel t" using Cons.prems(2) by simp
    show "distinct (map t_id (ts @ [x]))" using Cons.prems(3) by simp
    show "\<not> stopped ?s2" using Cons.prems(4) t1(3) by simp
  qed
  then obtain s' where s': "run_events (map (\<lambda>t. EvRun (t_id t) i) ts) ?s2 = Some s'" "tasks s' = [x]"
      "local_state s' = local_state ?s2" "\<not> stopped s'" "loop_set s' = loop_set ?s2"
      "trace (map (\<lambda>t. EvRun (t_id t) i) ts) ?s2 = Some (replicate (length ts) (local_state ?s2))"
    by blast
  have ls2: "local_state ?s2 = local_state s" "loop_set ?s2 = loop_set s" using t1(2,4) by simp_all
  show ?case
    using st s' ls2 by simp
qed

text \<open>
  The shutdown signal in any state of a loop on which \<^verbatim>\<open>run\<close> has started, along the
  schedule \<open>shutdown_events\<close>, on which nothing but \<^verbatim>\<open>_shutdown\<close> and the cancelled tasks
  runs: the state is \<open>KILLED\<close> from the first run of \<^verbatim>\<open>_shutdown\<close> on, and in the end
  no task is left and the loop is stopped.
\<close>

lemma shutdown_any_state:
  assumes d: "distinct (map t_id (tasks s))" and lt: "\<forall>t \<in> set (tasks s). t_id t < next_id s"
    and ns: "\<not> stopped s" and lp: "loop_set s"
  shows "\<exists>s'. run_events (shutdown_events s) s = Some s' \<and> local_state s' = KILLED
            \<and> stopped s' \<and> tasks s' = []
            \<and> trace (shutdown_events s) s
                = Some (local_state s # replicate (length (shutdown_events s) - 1) KILLED)"
proof -
  let ?N = "next_id s"
  let ?sd = "\<lparr>t_id = ?N, t_coro = Shutdown_new, t_wait = Ready, t_cancel = False\<rparr>"
  let ?s1 = "create_task Shutdown_new s"
  have st1: "step EvShutdown s = Some ?s1" using ns by simp
  have tasks1: "tasks ?s1 = tasks s @ [?sd]" by (simp add: create_task_def)
  have ns1: "\<not> stopped ?s1" using ns by (simp add: create_task_def)
  have ls1: "local_state ?s1 = local_state s" by (simp add: create_task_def)
  have neq: "\<forall>t \<in> set (tasks s). t_id t \<noteq> ?N" using lt by auto
  then have fnd: "find (\<lambda>t. t_id t = ?N) (tasks ?s1) = Some ?sd"
    unfolding tasks1 by (intro find_append_last) auto
  have run: "runnable ?s1 ?sd" by (simp add: runnable_def)
  have flt: "filter (\<lambda>t. t_id t \<noteq> ?N) (tasks s @ [?sd]) = tasks s"
    using filter_others [OF neq] by simp
  show ?thesis
  proof (cases "tasks s = []")
    case True
    have "step (EvRun ?N no_io) ?s1 = settle ?N (shutdown_start ?N ?s1)"
      using ns1 fnd run by simp
    then show ?thesis
      using st1 True lp
      by (simp add: shutdown_events_def shutdown_start_def gather_def shutdown_end_def settle_def
          create_task_def set_state_def info_def Let_def)
  next
    case False
    let ?ids = "map t_id (tasks s)"
    let ?cs = "map (\<lambda>t. t\<lparr>t_cancel := True\<rparr>) (tasks s)"
    let ?sd' = "?sd\<lparr>t_coro := Shutdown_gather, t_wait := OnTasks ?ids\<rparr>"
    have mp: "map (\<lambda>t. if t_id t \<noteq> ?N then t\<lparr>t_cancel := True\<rparr> else t) (tasks s) = ?cs"
      using neq by (induction "tasks s") auto
    have mp2: "map (\<lambda>t. if t_id t = ?N then t\<lparr>t_coro := Shutdown_gather, t_wait := OnTasks ?ids\<rparr> else t) ?cs = ?cs"
      using neq by (induction "tasks s") auto
    let ?s2 = "(info ''Cancelling outstanding tasks''
                ((info ''Received exit signal'' (set_state KILLED ?s1))\<lparr>tasks := ?cs @ [?sd]\<rparr>))
                 \<lparr>tasks := ?cs @ [?sd']\<rparr>"
    have g: "gather ?N (info ''Received exit signal'' (set_state KILLED ?s1))
           = (?ids, info ''Cancelling outstanding tasks''
                ((info ''Received exit signal'' (set_state KILLED ?s1))\<lparr>tasks := ?cs @ [?sd]\<rparr>))"
      using flt mp by (simp add: gather_def tasks1 info_def set_state_def create_task_def)
    have "shutdown_start ?N ?s1 = (info ''Cancelling outstanding tasks''
                ((info ''Received exit signal'' (set_state KILLED ?s1))\<lparr>tasks := ?cs @ [?sd]\<rparr>),
                Suspend Shutdown_gather (OnTasks ?ids))"
      unfolding shutdown_start_def g using False by simp
    then have "settle ?N (shutdown_start ?N ?s1) = Some ?s2"
      using mp2 by (simp add: settle_def info_def)
    moreover have "step (EvRun ?N no_io) ?s1 = settle ?N (shutdown_start ?N ?s1)"
      using ns1 fnd run by simp
    ultimately have st2: "step (EvRun ?N no_io) ?s1 = Some ?s2" by simp
    have s2: "tasks ?s2 = ?cs @ [?sd']" "local_state ?s2 = KILLED" "\<not> stopped ?s2" "loop_set ?s2"
      using ns lp by (simp_all add: info_def set_state_def create_task_def)
    have ids_cs: "map t_id ?cs = ?ids" by (rule nth_equalityI) simp_all
    have "distinct (map t_id ?cs @ [?N])"
      unfolding ids_cs using d neq by (auto simp: image_iff)
    then have dist2: "distinct (map t_id (?cs @ [?sd']))" by (simp del: map_map)
    have allc: "\<forall>t \<in> set ?cs. t_cancel t" by simp
    from cancel_sweep [OF s2(1) allc dist2 s2(3), of no_io]
    obtain s3 where s3: "run_events (map (\<lambda>t. EvRun (t_id t) no_io) ?cs) ?s2 = Some s3"
       "tasks s3 = [?sd']" "local_state s3 = local_state ?s2" "\<not> stopped s3"
       "trace (map (\<lambda>t. EvRun (t_id t) no_io) ?cs) ?s2 = Some (replicate (length ?cs) (local_state ?s2))"
       "loop_set s3 = loop_set ?s2"
      by blast
    have evs: "map (\<lambda>t. EvRun (t_id t) no_io) ?cs = map (\<lambda>t. EvRun (t_id t) no_io) (tasks s)"
      by (simp add: comp_def)
    have nin: "list_all (\<lambda>k. k \<noteq> ?N) ?ids" using neq by (simp add: list_all_iff)
    have st4: "step (EvRun ?N no_io) s3 = settle ?N (shutdown_end s3)"
      using s3(2,4) nin by (simp add: runnable_def)
    obtain s4 where s4: "step (EvRun ?N no_io) s3 = Some s4" "local_state s4 = KILLED" "stopped s4" "tasks s4 = []"
      using st4 s3(2,3,6) s2(2,4) by (simp add: shutdown_end_def settle_def Let_def)
    have ev: "shutdown_events s = [EvShutdown, EvRun ?N no_io] @ map (\<lambda>t. EvRun (t_id t) no_io) ?cs @ [EvRun ?N no_io]"
      using False by (simp add: shutdown_events_def evs)
    have r12: "run_events [EvShutdown, EvRun ?N no_io] s = Some ?s2"
      using st1 st2 by simp
    have t12: "trace [EvShutdown, EvRun ?N no_io] s = Some [local_state s, KILLED]"
      using st1 st2 ls1 s2(2) by simp
    have r3: "run_events (map (\<lambda>t. EvRun (t_id t) no_io) ?cs @ [EvRun ?N no_io]) ?s2 = Some s4"
      using s3(1) s4(1) by (simp add: run_events_append)
    have t3: "trace (map (\<lambda>t. EvRun (t_id t) no_io) ?cs @ [EvRun ?N no_io]) ?s2
         = Some (replicate (length ?cs) KILLED @ [KILLED])"
      using trace_append [OF s3(1) s3(5), of "[EvRun ?N no_io]" "[KILLED]"] s4(1,2) s2(2) by simp
    have "run_events (shutdown_events s) s = Some s4"
      unfolding ev by (subst run_events_append) (simp only: r12 option.case r3)
    moreover have "trace (shutdown_events s) s = Some ([local_state s, KILLED] @ replicate (length ?cs) KILLED @ [KILLED])"
      unfolding ev by (rule trace_append [OF r12 t12 t3])
    moreover have "length (shutdown_events s) - 1 = Suc (Suc (length ?cs))" unfolding ev by simp
    ultimately show ?thesis
      using s4 by (simp add: replicate_append_same)
  qed
qed

subsection \<open>The concrete run\<close>

lemmas controller_defs = init_sys_def loop_create_task_def no_io_def read_io_def stream_io_def
        runnable_def settle_def gather_def dispatch_def manifests_def
        call_later_def set_state_def info_def create_task_def idle_loop_def monitor_loop_def
        sys_probe_def stream_start_def stream_begin_def stream_loop_def stream_except_def
        stream_resume_def playback_exit_def shutdown_start_def shutdown_end_def throw_cancel_def
        Let_def

lemmas run_defs = run_first_play_def run_detect_def run_stream_def run_monitor_def
        run_resume_idle_def run_detect_again_def run_stop_def run_wake_def run_shutdown_def


lemma sys_probe_init:
  "sys_probe (init_sys ccfg pcfg pc hb\<lparr>buffer := b\<rparr>)
     = probe hb (probe_setter (cfg_maxamp ccfg) (sensitivity pc)) ccfg (sample_size pc) b"
  by (simp add: sys_probe_def init_sys_def)

lemma above_high_probe:
  assumes "above_high (init_sys ccfg pcfg pc hb) b"
  shows "\<exists>l. probe hb (probe_setter (cfg_maxamp ccfg) (sensitivity pc)) ccfg (sample_size pc) b = Inr (l, True)"
proof (cases "probe hb (probe_setter (cfg_maxamp ccfg) (sensitivity pc)) ccfg (sample_size pc) b")
  case (Inl e)
  then show ?thesis using assms unfolding above_high_def sys_probe_init by simp
next
  case (Inr r)
  then have "snd r" using assms unfolding above_high_def sys_probe_init by simp
  then show ?thesis using Inr by (cases r) simp
qed

lemma below_low_probe:
  assumes "below_low (init_sys ccfg pcfg pc hb) b"
  shows "\<exists>h. probe hb (probe_setter (cfg_maxamp ccfg) (sensitivity pc)) ccfg (sample_size pc) b = Inr (True, h)"
proof (cases "probe hb (probe_setter (cfg_maxamp ccfg) (sensitivity pc)) ccfg (sample_size pc) b")
  case (Inl e)
  then show ?thesis using assms unfolding below_low_def sys_probe_init by simp
next
  case (Inr r)
  then have "fst r" using assms unfolding below_low_def sys_probe_init by simp
  then show ?thesis using Inr by (cases r) simp
qed

text \<open>
  The run in nine phases, for any configuration with a start count of 3 and a stop count
  of 5 and any periods that the probe classifies as required.
\<close>

lemma whole_run:
  assumes counts: "start_count pc = 3" "stop_count pc = 5"
    and iv: "0 \<le> idle_interval pc" "0 \<le> follow_interval pc" "0 \<le> stream_interval pc"
            "0 \<le> hybernate_interval pc"
    and hi: "above_high (init_sys ccfg pcfg pc hb) b1" "above_high (init_sys ccfg pcfg pc hb) b2"
            "above_high (init_sys ccfg pcfg pc hb) b3" "above_high (init_sys ccfg pcfg pc hb) b4"
            "above_high (init_sys ccfg pcfg pc hb) b5" "above_high (init_sys ccfg pcfg pc hb) b6"
    and lo: "below_low (init_sys ccfg pcfg pc hb) q1" "below_low (init_sys ccfg pcfg pc hb) q2"
            "below_low (init_sys ccfg pcfg pc hb) q3" "below_low (init_sys ccfg pcfg pc hb) q4"
            "below_low (init_sys ccfg pcfg pc hb) q5"
    and ne: "b1 \<noteq> []" "b2 \<noteq> []" "b3 \<noteq> []" "b4 \<noteq> []" "b5 \<noteq> []" "b6 \<noteq> []" "b7 \<noteq> []"
            "q1 \<noteq> []" "q2 \<noteq> []" "q3 \<noteq> []" "q4 \<noteq> []" "q5 \<noteq> []"
  shows "trace (run_first_play @ run_detect pc b1 b2 b3 @ run_stream pc q1
                 @ run_monitor pc q2 q3 q4 q5 @ run_resume_idle pc
                 @ run_detect_again pc b4 b5 b6 b7 @ run_stop @ run_wake pc @ run_shutdown)
           (init_sys ccfg pcfg pc hb)
         = Some ([IDLE]
               @ [IDLE, IDLE, IDLE, IDLE, IDLE, IDLE, PLAY]
               @ [PLAY, PLAY, PLAY]
               @ [PLAY, PLAY, PLAY, PLAY, PLAY, PLAY, PLAY, PLAY, PLAY, PLAY, PLAY, PLAY, PLAY,
                  PLAY, PLAY, PLAY, IDLE]
               @ [IDLE, IDLE, IDLE, IDLE]
               @ [IDLE, IDLE, IDLE, IDLE, PLAY, PLAY]
               @ [PLAY, PLAY, PLAY, PLAY, HYBERNATE]
               @ [HYBERNATE, HYBERNATE, IDLE]
               @ [IDLE, KILLED, KILLED, KILLED, KILLED])" (is ?T)
    and "\<exists>s'. run_events (run_first_play @ run_detect pc b1 b2 b3 @ run_stream pc q1
                 @ run_monitor pc q2 q3 q4 q5 @ run_resume_idle pc
                 @ run_detect_again pc b4 b5 b6 b7 @ run_stop @ run_wake pc @ run_shutdown)
           (init_sys ccfg pcfg pc hb) = Some s' \<and> stopped s' \<and> tasks s' = []" (is ?R)
proof -
  let ?P = "probe hb (probe_setter (cfg_maxamp ccfg) (sensitivity pc)) ccfg (sample_size pc)"
  obtain l1 where p1: "?P b1 = Inr (l1, True)" using above_high_probe [OF hi(1)] by blast
  obtain l2 where p2: "?P b2 = Inr (l2, True)" using above_high_probe [OF hi(2)] by blast
  obtain l3 where p3: "?P b3 = Inr (l3, True)" using above_high_probe [OF hi(3)] by blast
  obtain l4 where p4: "?P b4 = Inr (l4, True)" using above_high_probe [OF hi(4)] by blast
  obtain l5 where p5: "?P b5 = Inr (l5, True)" using above_high_probe [OF hi(5)] by blast
  obtain l6 where p6: "?P b6 = Inr (l6, True)" using above_high_probe [OF hi(6)] by blast
  obtain h1 where r1: "?P q1 = Inr (True, h1)" using below_low_probe [OF lo(1)] by blast
  obtain h2 where r2: "?P q2 = Inr (True, h2)" using below_low_probe [OF lo(2)] by blast
  obtain h3 where r3: "?P q3 = Inr (True, h3)" using below_low_probe [OF lo(3)] by blast
  obtain h4 where r4: "?P q4 = Inr (True, h4)" using below_low_probe [OF lo(4)] by blast
  obtain h5 where r5: "?P q5 = Inr (True, h5)" using below_low_probe [OF lo(5)] by blast
  note ps = p1 p2 p3 p4 p5 p6 r1 r2 r3 r4 r5
  show ?T
    using counts iv ne by (simp add: run_defs controller_defs ps)
  show ?R
    using counts iv ne by (simp add: run_defs controller_defs ps)
qed

subsection \<open>The run on concrete inputs\<close>

lemma probe_from_deviations:
  assumes "(case MemScope_init b cfg of
              Inl e \<Rightarrow> Inl e
            | Inr ms \<Rightarrow> deviations (cfg_reference cfg) (concat (ms_islice hb (nat n) (MemScope_iter ms))))
           = Inr data"
    and "0 \<le> n" and "median data = Inr med"
  shows "probe hb h cfg n b = Inr (comp h med)"
  using assms by (cases "MemScope_init b cfg") (simp_all add: probe_def)

lemma median_pair: "median [a, a] = Inr (real_of_int a)"
  by (simp add: median_def)

lemma probe_loud: "probe False h cfg_s16le 40 loud = Inr (comp h 20000)"
proof -
  have "(case MemScope_init loud cfg_s16le of
              Inl e \<Rightarrow> Inl e
            | Inr ms \<Rightarrow> deviations (cfg_reference cfg_s16le) (concat (ms_islice False (nat 40) (MemScope_iter ms))))
           = Inr [20000, 20000]"
    unfolding loud_def cfg_s16le_def by code_simp
  from probe_from_deviations [OF this _ median_pair] show ?thesis by simp
qed

lemma probe_quiet: "probe False h cfg_s16le 40 quiet = Inr (comp h 0)"
proof -
  have "(case MemScope_init quiet cfg_s16le of
              Inl e \<Rightarrow> Inl e
            | Inr ms \<Rightarrow> deviations (cfg_reference cfg_s16le) (concat (ms_islice False (nat 40) (MemScope_iter ms))))
           = Inr [0, 0]"
    unfolding quiet_def cfg_s16le_def by code_simp
  from probe_from_deviations [OF this _ median_pair] show ?thesis by simp
qed

lemma loud_above_high: "above_high sys_demo loud"
proof -
  have "hc_high (probe_setter 32768 (-10)) \<le> 20000"
    using reverse_db_13(2) by (simp add: probe_setter_def)
  moreover have "cfg_maxamp cfg_s16le = 32768" "sensitivity pc_demo = -10" "sample_size pc_demo = 40"
    by (simp_all add: cfg_s16le_def pc_demo_def)
  ultimately show ?thesis
    unfolding above_high_def sys_demo_def sys_probe_init
    by (simp add: probe_loud comp_def)
qed

lemma quiet_below_low: "below_low sys_demo quiet"
proof -
  have "0 \<le> hc_low (probe_setter 32768 (-10))"
    using reverse_db_10(1) by (simp add: probe_setter_def)
  moreover have "cfg_maxamp cfg_s16le = 32768" "sensitivity pc_demo = -10" "sample_size pc_demo = 40"
    by (simp_all add: cfg_s16le_def pc_demo_def)
  ultimately show ?thesis
    unfolding below_low_def sys_demo_def sys_probe_init
    by (simp add: probe_quiet comp_def)
qed

text \<open>The run in nine phases at \<open>pc_demo\<close>, with the loud and the silent period.\<close>

lemma whole_run_demo:
  "trace (run_first_play @ run_detect pc_demo loud loud loud @ run_stream pc_demo quiet
             @ run_monitor pc_demo quiet quiet quiet quiet @ run_resume_idle pc_demo
             @ run_detect_again pc_demo loud loud loud loud @ run_stop @ run_wake pc_demo
             @ run_shutdown) sys_demo
       = Some ([IDLE]
               @ [IDLE, IDLE, IDLE, IDLE, IDLE, IDLE, PLAY]
               @ [PLAY, PLAY, PLAY]
               @ [PLAY, PLAY, PLAY, PLAY, PLAY, PLAY, PLAY, PLAY, PLAY, PLAY, PLAY, PLAY, PLAY,
                  PLAY, PLAY, PLAY, IDLE]
               @ [IDLE, IDLE, IDLE, IDLE]
               @ [IDLE, IDLE, IDLE, IDLE, PLAY, PLAY]
               @ [PLAY, PLAY, PLAY, PLAY, HYBERNATE]
               @ [HYBERNATE, HYBERNATE, IDLE]
               @ [IDLE, KILLED, KILLED, KILLED, KILLED])"
proof -
  have c: "start_count pc_demo = 3" "stop_count pc_demo = 5"
      "0 \<le> idle_interval pc_demo" "0 \<le> follow_interval pc_demo"
      "0 \<le> stream_interval pc_demo" "0 \<le> hybernate_interval pc_demo"
    by (simp_all add: pc_demo_def)
  have ne: "loud \<noteq> []" "quiet \<noteq> []" by (simp_all add: loud_def quiet_def)
  note h = loud_above_high [unfolded sys_demo_def]
  note l = quiet_below_low [unfolded sys_demo_def]
  show ?thesis
    unfolding sys_demo_def
    by (rule whole_run(1) [OF c h h h h h h l l l l l ne(1) ne(1) ne(1) ne(1) ne(1) ne(1) ne(1)
          ne(2) ne(2) ne(2) ne(2) ne(2)])
qed

subsection \<open>The shutdown signal\<close>

text \<open>
  Claim C2 (a concrete run: \<open>UNKNOWN\<close>, \<open>IDLE\<close> on the first \<^verbatim>\<open>PLAY\<close>, \<open>PLAY\<close> on the third
  detection, \<open>IDLE\<close> on the fifth silent monitor cycle, \<open>HYBERNATE\<close> on \<^verbatim>\<open>STOP\<close> and
  \<open>IDLE\<close> after the hibernate interval; the shutdown signal moves the controller from
  any state that is not \<open>KILLED\<close> to \<open>KILLED\<close>, after which its state does not change).
  The run up to the shutdown signal is as the claim says (\<open>whole_run\<close>).  The last part
  fails, on three schedules of the demo controller:
  \<^item> A \<^verbatim>\<open>STOP\<close> command has been dispatched and the hibernate interval has passed when the
    signal arrives.  \<^verbatim>\<open>_shutdown\<close> (task 2) sets \<open>KILLED\<close>, cancels \<^verbatim>\<open>run\<close> and waits in
    its gather; the \<^verbatim>\<open>call_later\<close> handle of the wake handler, which is no task and was
    not cancelled, fires; the wake handler (task 3) sets \<open>IDLE\<close>.  \<^verbatim>\<open>_shutdown\<close> then
    stops the loop, in state \<open>IDLE\<close>.
  \<^item> The signal arrives before \<^verbatim>\<open>run\<close> has dispatched its first command, and \<^verbatim>\<open>run\<close>
    runs first: its \<^verbatim>\<open>_gather\<close> cancels \<^verbatim>\<open>_shutdown\<close> (task 1) before it has started, and
    the state becomes \<open>IDLE\<close>, never \<open>KILLED\<close>.
  \<^item> The signal arrives before \<^verbatim>\<open>run\<close> has started, and \<^verbatim>\<open>_shutdown\<close> runs first: it sets
    \<open>KILLED\<close> and cancels \<^verbatim>\<open>run\<close>, and then \<^verbatim>\<open>self.loop.stop()\<close> raises
    \<open>AttributeError\<close>, as only \<^verbatim>\<open>run\<close> assigns \<^verbatim>\<open>self.loop\<close>: the loop is not stopped.
\<close>

theorem C2_shutdown_not_terminal:
  "trace [EvRun 0 no_io, EvAdvance (1 / 4), EvTimer 0,
          EvCommand Cmd_STOP, EvRun 0 no_io, EvRun 1 no_io, EvRun 0 no_io,
          EvAdvance 5,
          EvShutdown, EvRun 2 no_io, EvTimer 0, EvRun 3 no_io, EvRun 0 no_io, EvRun 2 no_io]
     sys_demo
     = Some [IDLE, IDLE, IDLE,
             IDLE, IDLE, IDLE, HYBERNATE,
             HYBERNATE,
             HYBERNATE, KILLED, KILLED, IDLE, IDLE, IDLE]
   \<and> map_option (\<lambda>s. (local_state s, stopped s))
       (run_events [EvRun 0 no_io, EvAdvance (1 / 4), EvTimer 0,
          EvCommand Cmd_STOP, EvRun 0 no_io, EvRun 1 no_io, EvRun 0 no_io,
          EvAdvance 5,
          EvShutdown, EvRun 2 no_io, EvTimer 0, EvRun 3 no_io, EvRun 0 no_io, EvRun 2 no_io]
        sys_demo)
     = Some (IDLE, True)
   \<and> trace [EvShutdown, EvRun 0 no_io, EvRun 1 no_io, EvRun 0 no_io] sys_demo
     = Some [UNKNOWN, UNKNOWN, UNKNOWN, IDLE]
   \<and> map_option (\<lambda>s. (local_state s, finished s, stopped s))
       (run_events [EvShutdown, EvRun 0 no_io, EvRun 1 no_io, EvRun 0 no_io] sys_demo)
     = Some (IDLE, [(1, Cancelled)], False)
   \<and> map_option (\<lambda>s. (local_state s, finished s, stopped s))
       (run_events [EvShutdown, EvRun 1 no_io, EvRun 0 no_io, EvRun 1 no_io] sys_demo)
     = Some (KILLED, [(0, Cancelled), (1, Raised AttributeError)], False)"
  by (simp add: sys_demo_def controller_defs pc_demo_def)

subsection \<open>Two commands in a row\<close>

lemma demo_probe_loud:
  "\<exists>l. probe False (probe_setter 32768 (-10)) cfg_s16le 40 loud = Inr (l, True)"
  using above_high_probe [OF loud_above_high [unfolded sys_demo_def]]
  by (simp add: cfg_s16le_def pc_demo_def)

lemma demo_to_playing:
  "run_events (run_first_play @ run_detect pc_demo loud loud loud) sys_demo = Some sys_playing"
proof -
  obtain l where p: "probe False (probe_setter 32768 (-10)) cfg_s16le 40 loud = Inr (l, True)"
    using demo_probe_loud by blast
  have c: "cfg_maxamp cfg_s16le = 32768" by (simp add: cfg_s16le_def)
  have ne: "loud \<noteq> []" by (simp add: loud_def)
  show ?thesis
    using ne by (simp add: run_defs sys_demo_def sys_playing_def controller_defs pc_demo_def c p)
qed

text \<open>
  Claim C3 (when a command is dispatched, every scheduled or running task of the previous
  command is cancelled and done, so that at most one handler chain is active).  A second
  \<^verbatim>\<open>PLAY\<close> command arrives before the idle handler of the first is due: \<^verbatim>\<open>_gather\<close>
  finds no task to cancel, the \<^verbatim>\<open>call_later\<close> handle of the first command stays, and
  \<^verbatim>\<open>run\<close> schedules a second one.  Both fire, and two idle handlers probe side by side.
\<close>
theorem C3_stale_handler_survives:
  "map_option (\<lambda>s. (local_state s, map t_coro (tasks s), map snd (timers s)))
     (run_events [EvRun 0 no_io, EvCommand Cmd_PLAY, EvRun 0 no_io] sys_demo)
     = Some (IDLE, [Run_get], [Idle_new, Idle_new])
   \<and> map_option (\<lambda>s. (local_state s, map t_coro (tasks s), map snd (timers s)))
     (run_events [EvRun 0 no_io, EvCommand Cmd_PLAY, EvRun 0 no_io,
                  EvAdvance (1 / 4), EvTimer 0, EvTimer 0,
                  EvRun 1 (read_io loud), EvRun 2 (read_io loud)] sys_demo)
     = Some (IDLE, [Run_get, Idle_sleep 1, Idle_sleep 1], [])"
proof -
  obtain l where p: "probe False (probe_setter 32768 (-10)) cfg_s16le 40 loud = Inr (l, True)"
    using demo_probe_loud by blast
  have c: "cfg_maxamp cfg_s16le = 32768" by (simp add: cfg_s16le_def)
  have ne: "loud \<noteq> []" by (simp add: loud_def)
  show ?thesis
    using ne by (simp add: sys_demo_def controller_defs pc_demo_def c p)
qed


subsection \<open>The stream handlers\<close>

lemma stream_loop_no_raise: "snd (stream_loop i ws s) \<noteq> Inr (Finish (Raised e))"
  by (auto simp: stream_loop_def Let_def split: option.splits sum.splits prod.splits)

lemma stream_try_no_raise: "snd (stream_try c i s) \<noteq> Inr (Finish (Raised e))"
  using stream_loop_no_raise
  by (auto simp: stream_try_def stream_begin_def Let_def split: option.splits sum.splits prod.splits)

lemma stream_except_never_alsa:
  assumes "snd r \<noteq> Inr (Finish (Raised ALSAAudioError))"
  shows "snd (stream_except r) \<noteq> Finish (Raised ALSAAudioError)"
  using assms
  by (auto simp: stream_except_def split: prod.splits sum.splits result.splits)

lemma stream_loop_tasks:
  "tasks (fst (stream_loop i ws s)) = tasks s \<and> stopped (fst (stream_loop i ws s)) = stopped s"
  by (auto simp: stream_loop_def playback_exit_def Let_def split: option.splits sum.splits prod.splits)

lemma stream_begin_tasks:
  "tasks (fst (stream_begin i s)) = tasks s \<and> stopped (fst (stream_begin i s)) = stopped s"
  using stream_loop_tasks
  by (auto simp: stream_begin_def playback_exit_def Let_def split: option.splits sum.splits prod.splits)

lemma stream_except_tasks:
  "tasks (fst (stream_except r)) = tasks (fst r) \<and> stopped (fst (stream_except r)) = stopped (fst r)"
  by (auto simp: stream_except_def info_def split: prod.splits sum.splits result.splits)

lemma stream_resume_is_try:
  assumes "c = Stream_new \<or> c = Stream_sleep"
  shows "resume tid c i s = stream_except (stream_try c i s)"
  using assms by (auto simp: stream_try_def stream_start_def stream_resume_def)

lemma stream_try_tasks:
  "tasks (fst (stream_try c i s)) = tasks s \<and> stopped (fst (stream_try c i s)) = stopped s"
  using stream_loop_tasks [of i "io_writes i" s] stream_begin_tasks [of i "info ''start redirecting'' s"]
  by (simp add: stream_try_def info_def)

lemma stream_except_alsa:
  assumes "snd r = Inl ALSAAudioError"
  shows "snd (stream_except r) = Finish Returned"
    and "rxq (fst (stream_except r)) = rxq (fst r) @ [Cmd_STOP]"
    and "logged (fst (stream_except r))
           = logged (fst r) @ [''Error opening playback device'', ''close playback'']"
  using assms by (cases r; simp add: stream_except_def info_def)+

lemma stream_loop_rxq:
  "rxq (fst (stream_loop i ws s)) = rxq s"
  by (auto simp: stream_loop_def playback_exit_def Let_def split: option.splits sum.splits prod.splits)

lemma stream_try_rxq: "rxq (fst (stream_try c i s)) = rxq s"
  using stream_loop_rxq
  by (auto simp: stream_try_def stream_begin_def playback_exit_def info_def Let_def
      split: option.splits sum.splits prod.splits)

lemma settle_others:
  assumes "settle tid (s1, r) = Some s'"
  shows "filter (\<lambda>t. t_id t \<noteq> tid) (tasks s') = filter (\<lambda>t. t_id t \<noteq> tid) (tasks s1)"
    and "stopped s' = stopped s1" and "rxq s' = rxq s1" and "logged s' = logged s1"
proof -
  have m: "filter (\<lambda>t. t_id t \<noteq> tid) (map (\<lambda>t. if t_id t = tid then f t else t) ts)
             = filter (\<lambda>t. t_id t \<noteq> tid) ts" if "\<And>t. t_id (f t) = t_id t" for f ts
    using that by (induction ts) auto
  show "filter (\<lambda>t. t_id t \<noteq> tid) (tasks s') = filter (\<lambda>t. t_id t \<noteq> tid) (tasks s1)"
    using assms by (cases r) (auto simp: settle_def m)
  show "stopped s' = stopped s1" "rxq s' = rxq s1" "logged s' = logged s1"
    using assms by (cases r; auto simp: settle_def)+
qed

text \<open>
  Claim C8: when a stream handler runs (from its start or from its sleep), it never ends
  with \<open>ALSAAudioError\<close> raised; the other tasks, among them \<^verbatim>\<open>run\<close>, stay as they are
  and the loop is not stopped; and when \<open>ALSAAudioError\<close> leaves the body of the
  \<^verbatim>\<open>try\<close> statement, the handler logs it, puts \<^verbatim>\<open>STOP\<close> on the command queue and returns.
  That is what happens when the playback device cannot be opened, when the first write
  fails, and when a write in the loop fails.
\<close>
theorem C8_stream_error_becomes_stop:
  assumes "c = Stream_new \<or> c = Stream_sleep"
    and "find (\<lambda>t. t_id t = tid) (tasks s) = Some t" and "t_coro t = c" and "\<not> t_cancel t"
    and "runnable s t" and "\<not> stopped s"
    and "step (EvRun tid i) s = Some s'"
  shows "snd (resume tid c i s) \<noteq> Finish (Raised ALSAAudioError)
       \<and> (tid, Raised ALSAAudioError) \<notin> set (finished s') - set (finished s)
       \<and> filter (\<lambda>u. t_id u \<noteq> tid) (tasks s') = filter (\<lambda>u. t_id u \<noteq> tid) (tasks s)
       \<and> \<not> stopped s'
       \<and> (snd (stream_try c i s) = Inl ALSAAudioError \<longrightarrow>
            rxq s' = rxq s @ [Cmd_STOP]
            \<and> ''Error opening playback device'' \<in> set (logged s')
            \<and> finished s' = finished s @ [(tid, Returned)])
       \<and> (c = Stream_new \<and> io_open i = Some ALSAAudioError \<longrightarrow>
            snd (stream_try c i s) = Inl ALSAAudioError)
       \<and> (c = Stream_new \<and> io_open i = None
            \<and> (\<exists>ws. PlaybackDevice_write (io_writes i) = Some (Inl ALSAAudioError, ws)) \<longrightarrow>
            snd (stream_try c i s) = Inl ALSAAudioError)
       \<and> (c = Stream_sleep \<and> local_state s = PLAY
            \<and> (\<exists>d rs. CaptureDevice_read (io_reads i) = Some (Inr d, rs))
            \<and> (\<exists>ws. PlaybackDevice_write (io_writes i) = Some (Inl ALSAAudioError, ws)) \<longrightarrow>
            snd (stream_try c i s) = Inl ALSAAudioError)"
proof -
  let ?r = "resume tid c i s"
  let ?b = "stream_try c i s"
  have res: "?r = stream_except ?b" by (rule stream_resume_is_try [OF assms(1)])
  have st: "settle tid ?r = Some s'"
    using assms(2-7) by simp
  then have st': "settle tid (fst ?r, snd ?r) = Some s'" by simp
  have 1: "snd ?r \<noteq> Finish (Raised ALSAAudioError)"
    unfolding res by (rule stream_except_never_alsa [OF stream_try_no_raise])
  have tk: "tasks (fst ?r) = tasks s" "stopped (fst ?r) = stopped s"
    unfolding res using stream_except_tasks [of ?b] stream_try_tasks [of c i s] by simp_all
  have 2: "(tid, Raised ALSAAudioError) \<notin> set (finished s') - set (finished s)"
  proof -
    have fin: "finished (fst ?r) = finished s"
      unfolding res
      by (auto simp: stream_except_def stream_try_def stream_begin_def stream_loop_def
          playback_exit_def info_def Let_def split: option.splits sum.splits prod.splits result.splits)
    show ?thesis
      using st' 1 fin by (cases "snd ?r") (auto simp: settle_def)
  qed
  have 3: "filter (\<lambda>u. t_id u \<noteq> tid) (tasks s') = filter (\<lambda>u. t_id u \<noteq> tid) (tasks s)"
    using settle_others(1) [OF st'] tk(1) by simp
  have 4: "\<not> stopped s'" using settle_others(2) [OF st'] tk(2) assms(6) by simp
  have 5: "rxq s' = rxq s @ [Cmd_STOP] \<and> ''Error opening playback device'' \<in> set (logged s')
            \<and> finished s' = finished s @ [(tid, Returned)]"
    if b: "snd ?b = Inl ALSAAudioError"
  proof -
    have r: "snd ?r = Finish Returned" unfolding res by (rule stream_except_alsa(1) [OF b])
    have q: "rxq (fst ?r) = rxq s @ [Cmd_STOP]"
      unfolding res using stream_except_alsa(2) [OF b] stream_try_rxq [of c i s] by simp
    have l: "''Error opening playback device'' \<in> set (logged (fst ?r))"
      unfolding res using stream_except_alsa(3) [OF b] by simp
    have fin: "finished (fst ?r) = finished s"
      unfolding res
      by (auto simp: stream_except_def stream_try_def stream_begin_def stream_loop_def
          playback_exit_def info_def Let_def split: option.splits sum.splits prod.splits result.splits)
    have "finished s' = finished (fst ?r) @ [(tid, Returned)]"
      using st' r by (auto simp: settle_def)
    then show ?thesis
      using settle_others(3,4) [OF st'] q l fin by simp
  qed
  have 6: "snd ?b = Inl ALSAAudioError" if "c = Stream_new \<and> io_open i = Some ALSAAudioError"
    using that by (simp add: stream_try_def stream_begin_def)
  have 7: "snd ?b = Inl ALSAAudioError"
    if "c = Stream_new \<and> io_open i = None
            \<and> (\<exists>ws. PlaybackDevice_write (io_writes i) = Some (Inl ALSAAudioError, ws))"
    using that by (auto simp: stream_try_def stream_begin_def Let_def)
  have 8: "snd ?b = Inl ALSAAudioError"
    if "c = Stream_sleep \<and> local_state s = PLAY
            \<and> (\<exists>d rs. CaptureDevice_read (io_reads i) = Some (Inr d, rs))
            \<and> (\<exists>ws. PlaybackDevice_write (io_writes i) = Some (Inl ALSAAudioError, ws))"
    using that by (auto simp: stream_try_def stream_loop_def Let_def)
  show ?thesis using 1 2 3 4 5 6 7 8 by blast
qed


text \<open>The theorem at the state \<open>sys_playing\<close> with a playback device that cannot be
  opened; \<^verbatim>\<open>run\<close> then dispatches the \<^verbatim>\<open>STOP\<close> command.\<close>
theorem C8_stream_error_becomes_stop_witness:
  "find (\<lambda>t. t_id t = 2) (tasks sys_playing)
       = Some \<lparr>t_id = 2, t_coro = Stream_new, t_wait = Ready, t_cancel = False\<rparr>
   \<and> \<not> stopped sys_playing \<and> io_open open_fails = Some ALSAAudioError
   \<and> (\<exists>s'. step (EvRun 2 open_fails) sys_playing = Some s'
          \<and> rxq s' = rxq sys_playing @ [Cmd_STOP]
          \<and> ''Error opening playback device'' \<in> set (logged s')
          \<and> finished s' = finished sys_playing @ [(2, Returned)]
          \<and> filter (\<lambda>u. t_id u \<noteq> 2) (tasks s') = filter (\<lambda>u. t_id u \<noteq> 2) (tasks sys_playing)
          \<and> \<not> stopped s')
   \<and> trace [EvRun 2 open_fails, EvRun 0 no_io, EvRun 1 no_io, EvRun 0 no_io] sys_playing
       = Some [PLAY, PLAY, PLAY, HYBERNATE]"
proof -
  let ?t = "\<lparr>t_id = 2, t_coro = Stream_new, t_wait = Ready, t_cancel = False\<rparr>"
  have f: "find (\<lambda>t. t_id t = 2) (tasks sys_playing) = Some ?t"
    by (simp add: sys_playing_def)
  have r: "runnable sys_playing ?t" by (simp add: runnable_def)
  have ns: "\<not> stopped sys_playing" by (simp add: sys_playing_def)
  have o: "io_open open_fails = Some ALSAAudioError" by (simp add: open_fails_def)
  obtain s' where st: "step (EvRun 2 open_fails) sys_playing = Some s'"
    by (simp add: sys_playing_def open_fails_def controller_defs)
  have tr: "trace [EvRun 2 open_fails, EvRun 0 no_io, EvRun 1 no_io, EvRun 0 no_io] sys_playing
       = Some [PLAY, PLAY, PLAY, HYBERNATE]"
    by (simp add: sys_playing_def open_fails_def controller_defs pc_demo_def)
  from C8_stream_error_becomes_stop [of Stream_new 2 sys_playing ?t open_fails s', OF _ f _ _ r ns st] o
  have "rxq s' = rxq sys_playing @ [Cmd_STOP]
          \<and> ''Error opening playback device'' \<in> set (logged s')
          \<and> finished s' = finished sys_playing @ [(2, Returned)]
          \<and> filter (\<lambda>u. t_id u \<noteq> 2) (tasks s') = filter (\<lambda>u. t_id u \<noteq> 2) (tasks sys_playing)
          \<and> \<not> stopped s'"
    by simp
  then show ?thesis using f ns o st tr by blast
qed

lemma py_with_usb_suppresses:
  assumes "io_open i = None"
    and "body (s\<lparr>usb_playback_open := usb_playback_open s + 1\<rparr>) = Some (s2, Some e)"
  shows "py_with (usb_enter i) usb_exit body s
           = Some (s2\<lparr>usb_playback_open := usb_playback_open s2 - 1\<rparr>, None)"
  using assms by (simp add: py_with_def usb_enter_def usb_exit_def)

text \<open>
  Claim C10: \<^verbatim>\<open>AlsaDevice.__exit__\<close> of usbloop.py returns \<^verbatim>\<open>True\<close>, so whatever exception
  the body of a \<^verbatim>\<open>with\<close> block over a device raises is suppressed and the device closed;
  \<^verbatim>\<open>FSM.stream\<close>, once the device is open, always returns without an exception, also
  when the playback write fails, and only logs.  An exception of \<^verbatim>\<open>__enter__\<close> (the
  device cannot be opened) is not inside the block and leaves \<^verbatim>\<open>stream\<close>.
\<close>
theorem C10_usb_exit_suppresses:
  "(io_open i = None \<and> body (s\<lparr>usb_playback_open := usb_playback_open s + 1\<rparr>) = Some (s2, Some e)
      \<longrightarrow> py_with (usb_enter i) usb_exit body s
            = Some (s2\<lparr>usb_playback_open := usb_playback_open s2 - 1\<rparr>, None))
   \<and> (io_open i = None \<and> usb_stream i s = Some r
      \<longrightarrow> snd r = None \<and> usb_playback_open (fst r) = usb_playback_open s
          \<and> usb_is_streaming (fst r) = usb_is_streaming s
          \<and> usb_logged (fst r) = usb_logged s @ [''start looping'', ''close playback''])
   \<and> (io_open i = None \<and> PlaybackDevice_write (io_writes i) = Some (Inl x, ws)
      \<longrightarrow> usb_stream i s
            = Some (s\<lparr>usb_logged := usb_logged s @ [''start looping'', ''close playback'']\<rparr>, None))
   \<and> (io_open i = Some x
      \<longrightarrow> usb_stream i s = Some (s\<lparr>usb_logged := usb_logged s @ [''start looping'']\<rparr>, Some x))"
proof -
  have 1: "py_with (usb_enter i) usb_exit body s
            = Some (s2\<lparr>usb_playback_open := usb_playback_open s2 - 1\<rparr>, None)"
    if "io_open i = None \<and> body (s\<lparr>usb_playback_open := usb_playback_open s + 1\<rparr>) = Some (s2, Some e)"
    using that py_with_usb_suppresses by blast
  have 2: "snd r = None \<and> usb_playback_open (fst r) = usb_playback_open s
          \<and> usb_is_streaming (fst r) = usb_is_streaming s
          \<and> usb_logged (fst r) = usb_logged s @ [''start looping'', ''close playback'']"
    if "io_open i = None \<and> usb_stream i s = Some r"
    using that
    by (auto simp: usb_stream_def py_with_def usb_enter_def usb_exit_def usb_stream_body_def
        usb_info_def split: option.splits sum.splits prod.splits)
  have 3: "usb_stream i s
            = Some (s\<lparr>usb_logged := usb_logged s @ [''start looping'', ''close playback'']\<rparr>, None)"
    if "io_open i = None \<and> PlaybackDevice_write (io_writes i) = Some (Inl x, ws)"
    using that
    by (simp add: usb_stream_def py_with_def usb_enter_def usb_exit_def usb_stream_body_def
        usb_info_def)
  have 4: "usb_stream i s = Some (s\<lparr>usb_logged := usb_logged s @ [''start looping'']\<rparr>, Some x)"
    if "io_open i = Some x"
    using that by (simp add: usb_stream_def py_with_def usb_enter_def usb_info_def)
  show ?thesis using 1 2 3 4 by blast
qed

text \<open>The theorem at a playback device whose first write fails.\<close>
theorem C10_usb_exit_suppresses_witness:
  "io_open write_fails = None
   \<and> PlaybackDevice_write (io_writes write_fails) = Some (Inl ALSAAudioError, [])
   \<and> usb_stream write_fails usb_demo
       = Some (usb_demo\<lparr>usb_logged := usb_logged usb_demo @ [''start looping'', ''close playback'']\<rparr>,
               None)"
proof -
  have a: "io_open write_fails = None"
    "PlaybackDevice_write (io_writes write_fails) = Some (Inl ALSAAudioError, [])"
    by (simp_all add: write_fails_def)
  from C10_usb_exit_suppresses [where i = write_fails and s = usb_demo and x = ALSAAudioError
      and ws = "[]"] a
  show ?thesis by blast
qed

end
